theory Spec2Isabelle
  imports Complex_Main "HOL-Library.Word"
begin

section \<open>Background removal service (server/remove-bg.js)\<close>

subsection \<open>Data\<close>

text \<open>
  A Node \<open>Buffer\<close> is a sequence of bytes. The service never looks inside a buffer: it
  reads its \<open>length\<close> and hands it to the image library or to the HTTP client.
\<close>

type_synonym buffer = "8 word list"

text \<open>
  The calls the service makes on the image library \<open>sharp\<close> are kept as a term: the
  constructor (\<open>sharp(buffer)\<close> or \<open>sharp({create: ...})\<close>) and the chain of
  methods applied to it. The library itself is outside the repository; what it returns
  for a chain is a parameter of the model (\<open>sharp_toBuffer\<close> below).
\<close>

datatype fit = Cover

datatype blend = Over | DestIn

datatype pipeline =
    Input buffer
  | Create nat nat
  | EnsureAlpha pipeline
  | Threshold nat pipeline
  | Resize nat nat fit pipeline
  | Composite pipeline buffer blend
  | CompositeTile pipeline buffer blend
  | Png pipeline
  | Jpeg nat pipeline

record metadata =
  width :: nat
  height :: nat

text \<open>The \<open>options\<close> object; a field that is \<open>undefined\<close> is \<open>None\<close>.\<close>

record options =
  priority :: "string list option"
  fallbackToLocal :: "bool option"
  maxFileSize :: "int option"
  size_opt :: "string option"
  type_opt :: "string option"
  format_opt :: "string option"
  bg_color :: "string option"
  concurrent :: "int option"

record service =
  name :: string
  url :: string
  apiKey :: "string option"
  costPerImage :: rat

record api_keys =
  key_removebg :: "string option"
  key_backgrounds :: "string option"
  key_clipdrop :: "string option"

text \<open>
  Every \<open>throw new Error(...)\<close> of the file is a constructor; the arguments are the
  parts the message is built from. \<open>SharpError\<close> is a rejection of the image library.
\<close>

datatype error =
    ServiceNotConfigured string
  | ApiKeyRequired string
  | PaymentRequired string
  | RateLimitExceeded string
  | ServiceFailed string string
  | LocalModelNotAvailable string
  | FileTooLarge int
  | AllServicesFailed
  | SharpError string
  | ReplacementFailed error

record removal_result =
  success :: bool
  service_name :: string
  result_buffer :: buffer
  contentType :: string
  cost :: rat
  note_opt :: "string option"

datatype http_outcome =
    Response buffer "string option"
  | HttpError "nat option" string

text \<open>
  What the process does to the outside world, in order: entering one of the three
  removal methods, an HTTP request, a call of the image library, a timer, a console line.
\<close>

datatype event =
    Enter_removeWithService string
  | Enter_removeWithLocalModel string
  | Enter_createBasicTransparency
  | Axios_post string string buffer "(string \<times> string) list"
  | Sharp_metadata buffer
  | Sharp_toBuffer pipeline
  | SetTimeout nat
  | Console_warn string error
  | Console_error string

type_synonym world = "event list"

text \<open>
  The environment: the API keys given to the constructor, and the answers of the HTTP
  client and of the image library. An answer may depend on everything that happened
  before (the history), so a provider may fail now and succeed later.
\<close>

record env =
  apiKeys :: api_keys
  axios_post :: "world \<Rightarrow> string \<Rightarrow> buffer \<Rightarrow> (string \<times> string) list \<Rightarrow> http_outcome"
  sharp_metadata :: "world \<Rightarrow> buffer \<Rightarrow> string + metadata"
  sharp_toBuffer :: "world \<Rightarrow> pipeline \<Rightarrow> string + buffer"

subsection \<open>Property lookup on a plain object\<close>

text \<open>
  \<open>this.services\<close> and \<open>this.localModels\<close> are object literals, so
  \<open>this.services[serviceName]\<close> also finds the properties every object inherits from
  \<open>Object.prototype\<close>. Such a value is truthy, has no \<open>apiKey\<close>, and its
  \<open>name\<close> is the name of the inherited function (\<open>undefined\<close> for
  \<open>__proto__\<close>, which a template literal prints as the word).
\<close>

datatype 'a js_prop = Own 'a | Inherited string | Undefined

definition objectPrototype :: "(string \<times> string) list" where
  "objectPrototype =
     [(''constructor'', ''Object''),
      (''__defineGetter__'', ''__defineGetter__''),
      (''__defineSetter__'', ''__defineSetter__''),
      (''hasOwnProperty'', ''hasOwnProperty''),
      (''__lookupGetter__'', ''__lookupGetter__''),
      (''__lookupSetter__'', ''__lookupSetter__''),
      (''isPrototypeOf'', ''isPrototypeOf''),
      (''propertyIsEnumerable'', ''propertyIsEnumerable''),
      (''toString'', ''toString''),
      (''valueOf'', ''valueOf''),
      (''__proto__'', ''undefined''),
      (''toLocaleString'', ''toLocaleString'')]"

definition get_prop :: "(string \<times> 'a) list \<Rightarrow> string \<Rightarrow> 'a js_prop" where
  "get_prop own k =
     (case map_of own k of
        Some v \<Rightarrow> Own v
      | None \<Rightarrow> (case map_of objectPrototype k of
                   Some n \<Rightarrow> Inherited n
                 | None \<Rightarrow> Undefined))"

definition services :: "api_keys \<Rightarrow> (string \<times> service) list" where
  "services keys =
     [(''removebg'',
        \<lparr>name = ''Remove.bg'', url = ''https://api.remove.bg/v1.0/removebg'',
         apiKey = key_removebg keys, costPerImage = 2 / 100\<rparr>),
      (''backgrounds'',
        \<lparr>name = ''BackgroundRemover.ai'', url = ''https://api.backgroundremover.ai/v1/remove'',
         apiKey = key_backgrounds keys, costPerImage = 3 / 100\<rparr>),
      (''clipdrop'',
        \<lparr>name = ''Clipdrop by Stability AI'', url = ''https://clipdrop-api.co/remove-background/v1'',
         apiKey = key_clipdrop keys, costPerImage = 10 / 100\<rparr>)]"

text \<open>Of a local model only the \<open>name\<close> is read.\<close>

definition localModels :: "(string \<times> string) list" where
  "localModels = [(''u2net'', ''U^2-Net''), (''rembg'', ''Rembg''), (''modnet'', ''MODNet'')]"

text \<open>A string option in a condition: \<open>undefined\<close> and the empty string are falsy.\<close>

definition truthy :: "string option \<Rightarrow> bool" where
  "truthy s = (case s of None \<Rightarrow> False | Some v \<Rightarrow> v \<noteq> [])"

subsection \<open>The removal methods\<close>

definition form_fields :: "options \<Rightarrow> (string \<times> string) list" where
  "form_fields opts =
     (if truthy (size_opt opts) then [(''size'', the (size_opt opts))] else []) @
     (if truthy (type_opt opts) then [(''type'', the (type_opt opts))] else []) @
     (if truthy (format_opt opts) then [(''format'', the (format_opt opts))] else []) @
     (if truthy (bg_color opts) then [(''bg_color'', the (bg_color opts))] else [])"

definition removeWithService ::
  "env \<Rightarrow> string \<Rightarrow> buffer \<Rightarrow> options \<Rightarrow> world \<Rightarrow> (error + removal_result) \<times> world" where
  "removeWithService env serviceName imageBuffer opts w =
     (let w0 = w @ [Enter_removeWithService serviceName] in
      case get_prop (services (apiKeys env)) serviceName of
        Undefined \<Rightarrow> (Inl (ServiceNotConfigured serviceName), w0)
      | Inherited n \<Rightarrow> (Inl (ApiKeyRequired n), w0)
      | Own svc \<Rightarrow>
          (if \<not> truthy (apiKey svc) then (Inl (ApiKeyRequired (name svc)), w0)
           else
             (let fields = form_fields opts;
                  w1 = w0 @ [Axios_post (url svc) (the (apiKey svc)) imageBuffer fields]
              in (case axios_post env w0 (url svc) imageBuffer fields of
                    Response data ct \<Rightarrow>
                      (Inr \<lparr>success = True, service_name = name svc, result_buffer = data,
                            contentType = (if truthy ct then the ct else ''image/png''),
                            cost = costPerImage svc, note_opt = None\<rparr>, w1)
                  | HttpError status msg \<Rightarrow>
                      (let w2 = w1 @ [Console_error (name svc)] in
                       if status = Some 402 then (Inl (PaymentRequired (name svc)), w2)
                       else if status = Some 429 then (Inl (RateLimitExceeded (name svc)), w2)
                       else (Inl (ServiceFailed (name svc) msg), w2))))))"

text \<open>The two awaited calls of the image library, each leaving its event.\<close>

definition metadata_call :: "env \<Rightarrow> buffer \<Rightarrow> world \<Rightarrow> (string + metadata) \<times> world" where
  "metadata_call env b w = (sharp_metadata env w b, w @ [Sharp_metadata b])"

definition toBuffer_call :: "env \<Rightarrow> pipeline \<Rightarrow> world \<Rightarrow> (string + buffer) \<times> world" where
  "toBuffer_call env p w = (sharp_toBuffer env w p, w @ [Sharp_toBuffer p])"

definition removeWithLocalModel ::
  "env \<Rightarrow> string \<Rightarrow> buffer \<Rightarrow> options \<Rightarrow> world \<Rightarrow> (error + removal_result) \<times> world" where
  "removeWithLocalModel env modelName imageBuffer opts w =
     (let w0 = w @ [Enter_removeWithLocalModel modelName] in
      case get_prop localModels modelName of
        Undefined \<Rightarrow> (Inl (LocalModelNotAvailable modelName), w0)
      | found \<Rightarrow>
          (let model_name = (case found of Own n \<Rightarrow> n | Inherited n \<Rightarrow> n | Undefined \<Rightarrow> []);
               w1 = w0 @ [SetTimeout 2000]
           in case metadata_call env imageBuffer w1 of
                (Inl m, w2) \<Rightarrow> (Inl (SharpError m), w2)
              | (Inr md, w2) \<Rightarrow>
                  (case toBuffer_call env
                          (Png (CompositeTile (Create (width md) (height md))
                                  [255, 255, 255, 255] DestIn)) w2 of
                     (Inl m, w3) \<Rightarrow> (Inl (SharpError m), w3)
                   | (Inr maskBuffer, w3) \<Rightarrow>
                       (case toBuffer_call env
                               (Png (Composite (EnsureAlpha (Input imageBuffer)) maskBuffer DestIn))
                               w3 of
                          (Inl m, w4) \<Rightarrow> (Inl (SharpError m), w4)
                        | (Inr resultBuffer, w4) \<Rightarrow>
                            (Inr \<lparr>success = True, service_name = ''Local: '' @ model_name,
                                  result_buffer = resultBuffer, contentType = ''image/png'',
                                  cost = 0,
                                  note_opt = Some ''This is a demo. Install proper model for accurate results.''\<rparr>,
                             w4)))))"

definition createBasicTransparency ::
  "env \<Rightarrow> buffer \<Rightarrow> world \<Rightarrow> (error + removal_result) \<times> world" where
  "createBasicTransparency env imageBuffer w =
     (let w0 = w @ [Enter_createBasicTransparency] in
      case metadata_call env imageBuffer w0 of
        (Inl m, w1) \<Rightarrow> (Inl (SharpError m), w1)
      | (Inr md, w1) \<Rightarrow>
          (case toBuffer_call env (Png (Threshold 240 (EnsureAlpha (Input imageBuffer)))) w1 of
             (Inl m, w2) \<Rightarrow> (Inl (SharpError m), w2)
           | (Inr resultBuffer, w2) \<Rightarrow>
               (Inr \<lparr>success = True, service_name = ''Basic Transparency'',
                     result_buffer = resultBuffer, contentType = ''image/png'', cost = 0,
                     note_opt = Some ''Basic threshold-based transparency applied''\<rparr>, w2)))"

subsection \<open>autoRemoveBackground\<close>

text \<open>
  The \<open>for ... of\<close> loop over the priority list. \<open>Some r\<close> is the \<open>return\<close> out
  of the loop; \<open>None\<close> is the loop running to its end. An error thrown in the body is
  caught, written to the console, and the loop goes on. An entry that is neither
  \<open>'local'\<close> nor a truthy property of \<open>this.services\<close> does nothing.
\<close>

fun try_priority ::
  "env \<Rightarrow> buffer \<Rightarrow> options \<Rightarrow> string list \<Rightarrow> world \<Rightarrow> removal_result option \<times> world" where
  "try_priority env imageBuffer opts [] w = (None, w)"
| "try_priority env imageBuffer opts (serviceName # rest) w =
     (if serviceName = ''local'' then
        (case removeWithLocalModel env ''u2net'' imageBuffer opts w of
           (Inr r, w') \<Rightarrow> (Some r, w')
         | (Inl e, w') \<Rightarrow>
             try_priority env imageBuffer opts rest (w' @ [Console_warn serviceName e]))
      else if get_prop (services (apiKeys env)) serviceName \<noteq> Undefined then
        (case removeWithService env serviceName imageBuffer opts w of
           (Inr r, w') \<Rightarrow> (Some r, w')
         | (Inl e, w') \<Rightarrow>
             try_priority env imageBuffer opts rest (w' @ [Console_warn serviceName e]))
      else try_priority env imageBuffer opts rest w)"

definition default_priority :: "string list" where
  "default_priority = [''local'', ''removebg'', ''backgrounds'', ''clipdrop'']"

definition autoRemoveBackground ::
  "env \<Rightarrow> buffer \<Rightarrow> options \<Rightarrow> world \<Rightarrow> (error + removal_result) \<times> world" where
  "autoRemoveBackground env imageBuffer opts w =
     (let prio = (case priority opts of None \<Rightarrow> default_priority | Some p \<Rightarrow> p);
          fallback = (case fallbackToLocal opts of None \<Rightarrow> True | Some f \<Rightarrow> f);
          maxSize = (case maxFileSize opts of None \<Rightarrow> 10 * 1024 * 1024 | Some m \<Rightarrow> m)
      in if int (length imageBuffer) > maxSize then (Inl (FileTooLarge maxSize), w)
         else
           (case try_priority env imageBuffer opts prio w of
              (Some r, w') \<Rightarrow> (Inr r, w')
            | (None, w') \<Rightarrow>
                if fallback then createBasicTransparency env imageBuffer w'
                else (Inl AllServicesFailed, w')))"

subsection \<open>replaceBackground\<close>

record composite_result =
  c_success :: bool
  c_buffer :: buffer
  c_contentType :: string
  dimensions :: "nat \<times> nat"

text \<open>
  The whole body is one \<open>try\<close>; whatever is thrown inside comes out wrapped as
  \<open>Background replacement failed: ...\<close>. The argument of \<open>composite\<close>,
  \<open>await foregroundImage.toBuffer()\<close>, is evaluated before the final \<open>toBuffer\<close>.
\<close>

definition replaceBackground ::
  "env \<Rightarrow> buffer \<Rightarrow> buffer \<Rightarrow> options \<Rightarrow> world \<Rightarrow> (error + composite_result) \<times> world" where
  "replaceBackground env imageBuffer backgroundBuffer opts w =
     (case autoRemoveBackground env imageBuffer opts w of
        (Inl e, w1) \<Rightarrow> (Inl (ReplacementFailed e), w1)
      | (Inr foreground, w1) \<Rightarrow>
          (case metadata_call env (result_buffer foreground) w1 of
             (Inl m, w2) \<Rightarrow> (Inl (ReplacementFailed (SharpError m)), w2)
           | (Inr fgMetadata, w2) \<Rightarrow>
               (case metadata_call env backgroundBuffer w2 of
                  (Inl m, w3) \<Rightarrow> (Inl (ReplacementFailed (SharpError m)), w3)
                | (Inr bgMetadata, w3) \<Rightarrow>
                    (let backgroundImage =
                           (if width fgMetadata \<noteq> width bgMetadata
                               \<or> height fgMetadata \<noteq> height bgMetadata
                            then Resize (width fgMetadata) (height fgMetadata) Cover
                                   (Input backgroundBuffer)
                            else Input backgroundBuffer)
                     in case toBuffer_call env (Input (result_buffer foreground)) w3 of
                          (Inl m, w4) \<Rightarrow> (Inl (ReplacementFailed (SharpError m)), w4)
                        | (Inr fg, w4) \<Rightarrow>
                            (case toBuffer_call env
                                    (Jpeg 90 (Composite backgroundImage fg Over)) w4 of
                               (Inl m, w5) \<Rightarrow> (Inl (ReplacementFailed (SharpError m)), w5)
                             | (Inr resultBuffer, w5) \<Rightarrow>
                                 (Inr \<lparr>c_success = True, c_buffer = resultBuffer,
                                       c_contentType = ''image/jpeg'',
                                       dimensions = (width fgMetadata, height fgMetadata)\<rparr>,
                                  w5))))))"

subsection \<open>batchRemoveBackground\<close>

text \<open>
  One entry of \<open>results\<close>: \<open>{success: true, result, index}\<close> or
  \<open>{success: false, error, index}\<close>.
\<close>

datatype batch_item = Fulfilled removal_result int | Rejected error int

fun item_success :: "batch_item \<Rightarrow> bool" where
  "item_success (Fulfilled r k) = True"
| "item_success (Rejected e k) = False"

fun item_index :: "batch_item \<Rightarrow> int" where
  "item_index (Fulfilled r k) = k"
| "item_index (Rejected e k) = k"

record batch_outcome =
  total_n :: nat
  successful :: nat
  failed :: nat
  results :: "batch_item list"
  estimatedCost :: rat

text \<open>
  \<open>Array.prototype.slice(start, end)\<close> on integers: a negative bound counts from the
  end, and both bounds are clamped to the array.
\<close>

definition slice :: "'a list \<Rightarrow> int \<Rightarrow> int \<Rightarrow> 'a list" where
  "slice xs start fin =
     (let n = int (length xs);
          k = (if start < 0 then max (n + start) 0 else min start n);
          final = (if fin < 0 then max (n + fin) 0 else min fin n)
      in take (nat (final - k)) (drop (nat k) xs))"

text \<open>
  \<open>batch.map((buffer, index) => ...)\<close> followed by \<open>Promise.all\<close>: every call settles,
  into a fulfilled or a rejected entry, and \<open>Promise.all\<close> returns the entries by
  position in \<open>batch\<close>, whichever settles first. The calls of one group run
  interleaved in the program; here they run one after the other, in the order of
  \<open>batch\<close>.
\<close>

fun run_batch ::
  "env \<Rightarrow> options \<Rightarrow> int \<Rightarrow> buffer list \<Rightarrow> int \<Rightarrow> world \<Rightarrow> batch_item list \<times> world" where
  "run_batch env opts i [] index w = ([], w)"
| "run_batch env opts i (b # batch) index w =
     (case autoRemoveBackground env b opts w of
        (r, w1) \<Rightarrow>
          (case run_batch env opts i batch (index + 1) w1 of
             (items, w2) \<Rightarrow>
               ((case r of Inr res \<Rightarrow> Fulfilled res (i + index)
                         | Inl e \<Rightarrow> Rejected e (i + index)) # items, w2)))"

text \<open>
  The loop \<open>for (let i = 0; i < imageBuffers.length; i += concurrent)\<close>. Nothing in
  the source says that it ends, so the result is an option: \<open>None\<close> is the loop
  running forever.
\<close>

partial_function (option) batch_loop ::
  "env \<Rightarrow> buffer list \<Rightarrow> options \<Rightarrow> int \<Rightarrow> int \<Rightarrow> batch_item list \<Rightarrow> world
     \<Rightarrow> (batch_item list \<times> world) option" where
  "batch_loop env imageBuffers opts conc i res w =
     (if i < int (length imageBuffers) then
        (case run_batch env opts i (slice imageBuffers i (i + conc)) 0 w of
           (batchResults, w1) \<Rightarrow>
             batch_loop env imageBuffers opts conc (i + conc) (res @ batchResults)
               (if i + conc < int (length imageBuffers) then w1 @ [SetTimeout 1000] else w1))
      else Some (res, w))"

definition batchRemoveBackground ::
  "env \<Rightarrow> buffer list \<Rightarrow> options \<Rightarrow> world \<Rightarrow> (batch_outcome \<times> world) option" where
  "batchRemoveBackground env imageBuffers opts w =
     (let conc = (case concurrent opts of None \<Rightarrow> 3 | Some c \<Rightarrow> c) in
      case batch_loop env imageBuffers opts conc 0 [] w of
        None \<Rightarrow> None
      | Some (res, w') \<Rightarrow>
          Some (\<lparr>total_n = length res,
                 successful = length (filter item_success res),
                 failed = length (filter (\<lambda>r. \<not> item_success r) res),
                 results = res,
                 estimatedCost = of_nat (length (filter item_success res)) * (2 / 100)\<rparr>, w'))"

section \<open>PDF compression service (server/compress-pdf.js)\<close>

subsection \<open>Data\<close>

record pdf_options =
  method_opt :: "string option"
  quality :: "string option"
  maxSizeMB :: "rat option"
  tempDir :: "string option"
  linearize :: "bool option"
  removeUnused :: "bool option"
  compressStreams :: "bool option"

text \<open>The shell command lines, by their variable parts.\<close>

datatype command =
    Gs string nat string string
  | Qpdf string string "string list"

datatype pdf_error =
    FsError string
  | GhostscriptFailed string
  | QpdfFailed string
  | UnsupportedMethod string

text \<open>
  The object \<open>compress\<close> returns. Its \<open>reduction\<close> field, a percentage printed
  with \<open>toFixed(2)\<close> from a floating-point quotient, is left out.
\<close>

record compress_result =
  p_success :: bool
  originalSize :: nat
  compressedSize :: nat
  p_buffer :: buffer
  methodUsed :: string

datatype pdf_event =
    Enter_compress string string
  | Date_now
  | Fs_mkdir string
  | Fs_writeFile string
  | Fs_readFile string
  | Fs_stat string
  | Fs_unlink string
  | Exec command
  | Console_log
  | Console_warn_unlink string string

text \<open>
  The state: the files on disk, by path, and the history of what the process did.
  Directories are not kept.
\<close>

record pdf_world =
  files :: "(string \<times> buffer) list"
  history :: "pdf_event list"

text \<open>
  The environment, each answer depending on the history:
  \<^item> \<open>now\<close>: the clock read by \<open>Date.now()\<close>;
  \<^item> \<open>fs_fault\<close>: the error code with which the file system refuses an operation
    (\<open>None\<close>: it does not refuse);
  \<^item> \<open>exec\<close>: what running a command does: the error message if the process fails,
    and the bytes it leaves in its output file, if any;
  \<^item> \<open>path_join\<close>: Node's \<open>path.join\<close>.
\<close>

record pdf_env =
  now :: "pdf_event list \<Rightarrow> nat"
  fs_fault :: "pdf_event list \<Rightarrow> pdf_event \<Rightarrow> string option"
  exec :: "pdf_event list \<Rightarrow> command \<Rightarrow> string option \<times> buffer option"
  path_join :: "string \<Rightarrow> string \<Rightarrow> string"

subsection \<open>File system\<close>

definition file_exists :: "pdf_world \<Rightarrow> string \<Rightarrow> bool" where
  "file_exists w p = (map_of (files w) p \<noteq> None)"

definition put_file :: "string \<Rightarrow> buffer \<Rightarrow> (string \<times> buffer) list \<Rightarrow> (string \<times> buffer) list" where
  "put_file p b fs = (p, b) # filter (\<lambda>e. fst e \<noteq> p) fs"

definition del_file :: "string \<Rightarrow> (string \<times> buffer) list \<Rightarrow> (string \<times> buffer) list" where
  "del_file p fs = filter (\<lambda>e. fst e \<noteq> p) fs"

definition logged :: "pdf_event \<Rightarrow> pdf_world \<Rightarrow> pdf_world" where
  "logged e w = w\<lparr>history := history w @ [e]\<rparr>"

definition fs_mkdir :: "pdf_env \<Rightarrow> string \<Rightarrow> pdf_world \<Rightarrow> (pdf_error + unit) \<times> pdf_world" where
  "fs_mkdir env p w =
     (case fs_fault env (history w) (Fs_mkdir p) of
        Some code \<Rightarrow> (Inl (FsError code), logged (Fs_mkdir p) w)
      | None \<Rightarrow> (Inr (), logged (Fs_mkdir p) w))"

definition fs_writeFile ::
  "pdf_env \<Rightarrow> string \<Rightarrow> buffer \<Rightarrow> pdf_world \<Rightarrow> (pdf_error + unit) \<times> pdf_world" where
  "fs_writeFile env p b w =
     (case fs_fault env (history w) (Fs_writeFile p) of
        Some code \<Rightarrow> (Inl (FsError code), logged (Fs_writeFile p) w)
      | None \<Rightarrow> (Inr (), logged (Fs_writeFile p) (w\<lparr>files := put_file p b (files w)\<rparr>)))"

definition fs_readFile :: "pdf_env \<Rightarrow> string \<Rightarrow> pdf_world \<Rightarrow> (pdf_error + buffer) \<times> pdf_world" where
  "fs_readFile env p w =
     (case fs_fault env (history w) (Fs_readFile p) of
        Some code \<Rightarrow> (Inl (FsError code), logged (Fs_readFile p) w)
      | None \<Rightarrow>
          (case map_of (files w) p of
             None \<Rightarrow> (Inl (FsError ''ENOENT''), logged (Fs_readFile p) w)
           | Some b \<Rightarrow> (Inr b, logged (Fs_readFile p) w)))"

definition fs_stat :: "pdf_env \<Rightarrow> string \<Rightarrow> pdf_world \<Rightarrow> (pdf_error + nat) \<times> pdf_world" where
  "fs_stat env p w =
     (case fs_fault env (history w) (Fs_stat p) of
        Some code \<Rightarrow> (Inl (FsError code), logged (Fs_stat p) w)
      | None \<Rightarrow>
          (case map_of (files w) p of
             None \<Rightarrow> (Inl (FsError ''ENOENT''), logged (Fs_stat p) w)
           | Some b \<Rightarrow> (Inr (length b), logged (Fs_stat p) w)))"

text \<open>\<open>fs.unlink\<close>: the error code, if it fails; the file stays when it does.\<close>

definition fs_unlink :: "pdf_env \<Rightarrow> string \<Rightarrow> pdf_world \<Rightarrow> string option \<times> pdf_world" where
  "fs_unlink env p w =
     (case fs_fault env (history w) (Fs_unlink p) of
        Some code \<Rightarrow> (Some code, logged (Fs_unlink p) w)
      | None \<Rightarrow>
          if file_exists w p
          then (None, logged (Fs_unlink p) (w\<lparr>files := del_file p (files w)\<rparr>))
          else (Some ''ENOENT'', logged (Fs_unlink p) w))"

text \<open>
  \<open>execPromise(command)\<close>: the process may leave bytes in the file it was told to
  write, whether it fails or not.
\<close>

fun output_of :: "command \<Rightarrow> string" where
  "output_of (Gs setting dpi outputPath inputPath) = outputPath"
| "output_of (Qpdf inputPath outputPath flags) = outputPath"

definition run_command :: "pdf_env \<Rightarrow> command \<Rightarrow> pdf_world \<Rightarrow> string option \<times> pdf_world" where
  "run_command env c w =
     (case exec env (history w) c of
        (failure, written) \<Rightarrow>
          (failure,
           logged (Exec c)
             (case written of
                None \<Rightarrow> w
              | Some b \<Rightarrow> w\<lparr>files := put_file (output_of c) b (files w)\<rparr>)))"

subsection \<open>The compression methods\<close>

definition qualityMap :: "(string \<times> string) list" where
  "qualityMap =
     [(''screen'', ''/screen''), (''ebook'', ''/ebook''), (''printer'', ''/printer''),
      (''prepress'', ''/prepress''), (''default'', ''/default'')]"

text \<open>
  \<open>qualityMap[quality] || '/ebook'\<close>, then printed into the command line. An inherited
  property prints as a function, \<open>__proto__\<close> as an object.
\<close>

definition qualitySetting :: "string \<Rightarrow> string" where
  "qualitySetting q =
     (case get_prop qualityMap q of
        Own s \<Rightarrow> s
      | Inherited n \<Rightarrow>
          (if q = ''__proto__'' then ''[object Object]''
           else ''function '' @ n @ ''() { [native code] }'')
      | Undefined \<Rightarrow> ''/ebook'')"

definition compressWithGhostscript ::
  "pdf_env \<Rightarrow> string \<Rightarrow> string \<Rightarrow> string \<Rightarrow> pdf_world \<Rightarrow> (pdf_error + nat) \<times> pdf_world" where
  "compressWithGhostscript env inputPath outputPath q w =
     (let dpi = (if q = ''screen'' then 72 else 150) in
      case run_command env (Gs (qualitySetting q) dpi outputPath inputPath) w of
        (Some msg, w1) \<Rightarrow> (Inl (GhostscriptFailed msg), w1)
      | (None, w1) \<Rightarrow>
          (case fs_stat env outputPath w1 of
             (Inl (FsError code), w2) \<Rightarrow> (Inl (GhostscriptFailed code), w2)
           | (Inl e, w2) \<Rightarrow> (Inl e, w2)
           | (Inr n, w2) \<Rightarrow> (Inr n, w2)))"

definition qpdf_flags :: "pdf_options \<Rightarrow> string list" where
  "qpdf_flags opts =
     (if linearize opts \<noteq> Some False then [''--linearize''] else []) @
     (if removeUnused opts \<noteq> Some False then [''--remove-unreferenced-resources=yes''] else []) @
     (if compressStreams opts \<noteq> Some False then [''--compress-streams=y''] else []) @
     [''--object-streams=generate'']"

definition compressWithQPdf ::
  "pdf_env \<Rightarrow> string \<Rightarrow> string \<Rightarrow> pdf_options \<Rightarrow> pdf_world \<Rightarrow> (pdf_error + nat) \<times> pdf_world" where
  "compressWithQPdf env inputPath outputPath opts w =
     (case run_command env (Qpdf inputPath outputPath (qpdf_flags opts)) w of
        (Some msg, w1) \<Rightarrow> (Inl (QpdfFailed msg), w1)
      | (None, w1) \<Rightarrow>
          (case fs_stat env outputPath w1 of
             (Inl (FsError code), w2) \<Rightarrow> (Inl (QpdfFailed code), w2)
           | (Inl e, w2) \<Rightarrow> (Inl e, w2)
           | (Inr n, w2) \<Rightarrow> (Inr n, w2)))"

subsection \<open>cleanupFiles\<close>

text \<open>
  Each \<open>unlink\<close> sits in its own \<open>try\<close>: a failure other than "no such file" is
  written to the console, and none is passed on. So \<open>cleanupFiles\<close> only changes the
  state.
\<close>

fun cleanupFiles :: "pdf_env \<Rightarrow> string list \<Rightarrow> pdf_world \<Rightarrow> pdf_world" where
  "cleanupFiles env [] w = w"
| "cleanupFiles env (filePath # filePaths) w =
     (case fs_unlink env filePath w of
        (None, w1) \<Rightarrow> cleanupFiles env filePaths w1
      | (Some code, w1) \<Rightarrow>
          cleanupFiles env filePaths
            (if code \<noteq> ''ENOENT'' then logged (Console_warn_unlink filePath code) w1 else w1))"

subsection \<open>compress\<close>

text \<open>Decimal digits of a number, as a template literal prints it.\<close>

function string_of_nat :: "nat \<Rightarrow> string" where
  "string_of_nat n =
     (if n < 10 then [''0123456789'' ! n]
      else string_of_nat (n div 10) @ [''0123456789'' ! (n mod 10)])"
  by pat_completeness auto
termination
  by (relation "measure id") auto

declare string_of_nat.simps [simp del]

text \<open>
  \<open>toLowerCase\<close> on the letters A to Z. The two method names the \<open>switch\<close> knows are
  made of unaccented lower-case letters, and no other character lower-cases to one of
  those, so the \<open>switch\<close> takes the same branch.
\<close>

definition toLowerCase :: "string \<Rightarrow> string" where
  "toLowerCase s =
     map (\<lambda>c. case map_of (zip ''ABCDEFGHIJKLMNOPQRSTUVWXYZ'' ''abcdefghijklmnopqrstuvwxyz'') c of
                 Some l \<Rightarrow> l
               | None \<Rightarrow> c) s"

definition method_of :: "pdf_options \<Rightarrow> string" where
  "method_of opts = (case method_opt opts of None \<Rightarrow> ''ghostscript'' | Some m \<Rightarrow> m)"

definition quality_of :: "pdf_options \<Rightarrow> string" where
  "quality_of opts = (case quality opts of None \<Rightarrow> ''ebook'' | Some q \<Rightarrow> q)"

definition maxSizeMB_of :: "pdf_options \<Rightarrow> rat" where
  "maxSizeMB_of opts = (case maxSizeMB opts of None \<Rightarrow> 5 | Some m \<Rightarrow> m)"

definition tempDir_of :: "pdf_options \<Rightarrow> string" where
  "tempDir_of opts = (case tempDir opts of None \<Rightarrow> ''./temp'' | Some d \<Rightarrow> d)"

text \<open>
  The body of the \<open>try\<close> up to the first cleanup: write the input, run the
  chosen method, read the output back, delete both files. Anything thrown on the way is
  \<open>Inl\<close>.
\<close>

definition compress_once ::
  "pdf_env \<Rightarrow> buffer \<Rightarrow> pdf_options \<Rightarrow> string \<Rightarrow> string \<Rightarrow> pdf_world
     \<Rightarrow> (pdf_error + buffer) \<times> pdf_world" where
  "compress_once env inputBuffer opts inputPath outputPath w =
     (case fs_writeFile env inputPath inputBuffer w of
        (Inl e, w1) \<Rightarrow> (Inl e, w1)
      | (Inr u, w1) \<Rightarrow>
          (case (if toLowerCase (method_of opts) = ''ghostscript''
                 then compressWithGhostscript env inputPath outputPath (quality_of opts) w1
                 else if toLowerCase (method_of opts) = ''qpdf''
                 then compressWithQPdf env inputPath outputPath opts w1
                 else (Inl (UnsupportedMethod (method_of opts)), w1)) of
             (Inl e, w2) \<Rightarrow> (Inl e, w2)
           | (Inr result, w2) \<Rightarrow>
               (case fs_readFile env outputPath w2 of
                  (Inl e, w3) \<Rightarrow> (Inl e, w3)
                | (Inr compressedBuffer, w3) \<Rightarrow>
                    (Inr compressedBuffer, cleanupFiles env [inputPath, outputPath] w3))))"

text \<open>
  The names of the two temporary files, from the clock, and the state in which the
  \<open>try\<close> is entered.
\<close>

definition temp_paths :: "pdf_env \<Rightarrow> pdf_options \<Rightarrow> pdf_world \<Rightarrow> string \<times> string" where
  "temp_paths env opts w =
     (let timestamp = now env (history w) in
      (path_join env (tempDir_of opts) (''input_'' @ string_of_nat timestamp @ ''.pdf''),
       path_join env (tempDir_of opts) (''compressed_'' @ string_of_nat timestamp @ ''.pdf'')))"

definition over_budget :: "pdf_options \<Rightarrow> buffer \<Rightarrow> bool" where
  "over_budget opts compressedBuffer =
     (of_nat (length compressedBuffer) > maxSizeMB_of opts * 1024 * 1024)"

text \<open>
  \<open>compress\<close> calls itself, with the quality set to \<open>'screen'\<close>, from inside its own
  \<open>try\<close>: an error of the inner call is caught by the outer \<open>catch\<close>, which cleans up
  once more and throws it again.
\<close>

function compress ::
  "pdf_env \<Rightarrow> buffer \<Rightarrow> pdf_options \<Rightarrow> pdf_world \<Rightarrow> (pdf_error + compress_result) \<times> pdf_world" where
  "compress env inputBuffer opts w =
     (case fs_mkdir env (tempDir_of opts)
             (logged (Enter_compress (method_of opts) (quality_of opts)) w) of
        (Inl e, w0) \<Rightarrow> (Inl e, w0)
      | (Inr u, w0) \<Rightarrow>
          (case temp_paths env opts w0 of
             (inputPath, outputPath) \<Rightarrow>
               (case compress_once env inputBuffer opts inputPath outputPath (logged Date_now w0) of
                  (Inl e, w1) \<Rightarrow> (Inl e, cleanupFiles env [inputPath, outputPath] w1)
                | (Inr compressedBuffer, w1) \<Rightarrow>
                    if over_budget opts compressedBuffer \<and> quality_of opts \<noteq> ''screen'' then
                      (case compress env inputBuffer (opts\<lparr>quality := Some ''screen''\<rparr>)
                              (logged Console_log w1) of
                         (Inl e, w2) \<Rightarrow> (Inl e, cleanupFiles env [inputPath, outputPath] w2)
                       | (Inr r, w2) \<Rightarrow> (Inr r, w2))
                    else
                      (Inr \<lparr>p_success = True, originalSize = length inputBuffer,
                            compressedSize = length compressedBuffer,
                            p_buffer = compressedBuffer, methodUsed = method_of opts\<rparr>, w1))))"
  by pat_completeness auto
termination
  by (relation "measure (\<lambda>(env, inputBuffer, opts, w). if quality_of opts = ''screen'' then 0 else 1)")
     (auto simp: quality_of_def)

declare compress.simps [simp del]

section \<open>Observations on a history\<close>





text \<open>
  For \<open>compress\<close>: one attempt is what a call does from its entry up to the end of
  its first cleanup, that is the directory, the two names, and \<open>compress_once\<close>
  (without what the \<open>catch\<close> and the retry add). \<open>qualities_tried\<close> reads off
  a history the quality of every call of \<open>compress\<close>, in order; \<open>written_paths\<close>
  the path of every file the process wrote or told a command to write.
\<close>

definition first_attempt ::
  "pdf_env \<Rightarrow> buffer \<Rightarrow> pdf_options \<Rightarrow> pdf_world \<Rightarrow> (pdf_error + buffer) \<times> pdf_world" where
  "first_attempt env inputBuffer opts w =
     (case fs_mkdir env (tempDir_of opts)
             (logged (Enter_compress (method_of opts) (quality_of opts)) w) of
        (Inl e, w0) \<Rightarrow> (Inl e, w0)
      | (Inr u, w0) \<Rightarrow>
          (case temp_paths env opts w0 of
             (inputPath, outputPath) \<Rightarrow>
               compress_once env inputBuffer opts inputPath outputPath (logged Date_now w0)))"

text \<open>The two names a call of \<open>compress\<close> in state \<open>w\<close> gives to its files.\<close>

definition call_paths :: "pdf_env \<Rightarrow> pdf_options \<Rightarrow> pdf_world \<Rightarrow> string \<times> string" where
  "call_paths env opts w =
     temp_paths env opts
       (snd (fs_mkdir env (tempDir_of opts)
               (logged (Enter_compress (method_of opts) (quality_of opts)) w)))"

fun tried :: "pdf_event \<Rightarrow> string list" where
  "tried (Enter_compress m q) = [q]"
| "tried e = []"

definition qualities_tried :: "pdf_event list \<Rightarrow> string list" where
  "qualities_tried h = concat (map tried h)"

fun written :: "pdf_event \<Rightarrow> string list" where
  "written (Fs_writeFile p) = [p]"
| "written (Exec c) = [output_of c]"
| "written e = []"

definition written_paths :: "pdf_event list \<Rightarrow> string list" where
  "written_paths h = concat (map written h)"


text \<open>
  Two relations between the state before and the state after a piece of the process.
  \<open>touches S w w'\<close>: the history has grown, without a new call of \<open>compress\<close>;
  files were written at paths of \<open>S\<close> only, and a file that exists afterwards
  existed before or lies in \<open>S\<close>. \<open>clean w w'\<close>: the history has grown, no path
  written on the way exists afterwards, and no file exists that did not exist before.
\<close>

definition touches :: "string set \<Rightarrow> pdf_world \<Rightarrow> pdf_world \<Rightarrow> bool" where
  "touches S w w' =
     ((\<exists>evs. history w' = history w @ evs \<and> set (written_paths evs) \<subseteq> S
             \<and> qualities_tried evs = [])
      \<and> (\<forall>p. file_exists w' p \<longrightarrow> file_exists w p \<or> p \<in> S))"

definition clean :: "pdf_world \<Rightarrow> pdf_world \<Rightarrow> bool" where
  "clean w w' =
     ((\<exists>evs. history w' = history w @ evs
             \<and> (\<forall>p \<in> set (written_paths evs). \<not> file_exists w' p))
      \<and> (\<forall>p. file_exists w' p \<longrightarrow> file_exists w p))"

text \<open>
  The retry as C4 words it: one step along
  \<open>prepress \<rightarrow> printer \<rightarrow> default \<rightarrow> ebook \<rightarrow> screen\<close>.
\<close>

definition next_more_aggressive :: "string \<Rightarrow> string" where
  "next_more_aggressive q =
     (if q = ''prepress'' then ''printer''
      else if q = ''printer'' then ''default''
      else if q = ''default'' then ''ebook''
      else ''screen'')"

text \<open>
  The estimated cost as C3 words it: each item counts at the cost of the provider that
  resolved it, which is zero for the local model and for the fallback; a failed item
  counts nothing.
\<close>

definition paid_provider_cost :: "batch_item list \<Rightarrow> rat" where
  "paid_provider_cost res =
     sum_list (map (\<lambda>it. case it of Fulfilled r k \<Rightarrow> cost r | Rejected e k \<Rightarrow> 0) res)"

section \<open>Concrete environments\<close>

definition no_keys :: api_keys where
  "no_keys = \<lparr>key_removebg = None, key_backgrounds = None, key_clipdrop = None\<rparr>"

definition all_keys :: api_keys where
  "all_keys =
     \<lparr>key_removebg = Some ''k1'', key_backgrounds = Some ''k2'', key_clipdrop = Some ''k3''\<rparr>"

text \<open>No key, no network, and an image library that rejects every buffer.\<close>

definition env_offline :: env where
  "env_offline =
     \<lparr>apiKeys = no_keys,
      axios_post = (\<lambda>h u b f. HttpError None ''ECONNREFUSED''),
      sharp_metadata = (\<lambda>h b. Inl ''Input buffer contains unsupported image format''),
      sharp_toBuffer = (\<lambda>h p. Inl ''Input buffer contains unsupported image format'')\<rparr>"

text \<open>
  No key, no network, and an image library that reads every buffer; the buffer \<open>[4]\<close> is
  an image of 4 by 3, any other one of 2 by 2.
\<close>

definition env_local :: env where
  "env_local =
     \<lparr>apiKeys = no_keys,
      axios_post = (\<lambda>h u b f. HttpError None ''ECONNREFUSED''),
      sharp_metadata =
        (\<lambda>h b. if b = [4] then Inr \<lparr>width = 4, height = 3\<rparr> else Inr \<lparr>width = 2, height = 2\<rparr>),
      sharp_toBuffer = (\<lambda>h p. Inr [7, 7])\<rparr>"

text \<open>All keys set; Remove.bg answers 429, the two other services answer with an image.\<close>

definition env_second :: env where
  "env_second =
     \<lparr>apiKeys = all_keys,
      axios_post =
        (\<lambda>h u b f.
           if u = ''https://api.remove.bg/v1.0/removebg''
           then HttpError (Some 429) ''Request failed with status code 429''
           else Response [9] (Some ''image/png'')),
      sharp_metadata = (\<lambda>h b. Inr \<lparr>width = 2, height = 2\<rparr>),
      sharp_toBuffer = (\<lambda>h p. Inr [7, 7])\<rparr>"

definition opts0 :: options where
  "opts0 =
     \<lparr>priority = None, fallbackToLocal = None, maxFileSize = None, size_opt = None,
      type_opt = None, format_opt = None, bg_color = None, concurrent = None\<rparr>"

text \<open>
  For \<open>compress\<close>: a clock that shows 7, a file system that refuses nothing, commands
  that succeed and leave three bytes in their output file.
\<close>

definition pdf_env_ok :: pdf_env where
  "pdf_env_ok =
     \<lparr>now = (\<lambda>h. 7),
      fs_fault = (\<lambda>h e. None),
      exec = (\<lambda>h c. (None, Some [1, 2, 3])),
      path_join = (\<lambda>d f. d @ ''/'' @ f)\<rparr>"

text \<open>The same, with a file system that refuses every \<open>unlink\<close> (\<open>EPERM\<close>).\<close>

definition pdf_env_eperm :: pdf_env where
  "pdf_env_eperm =
     \<lparr>now = (\<lambda>h. 7),
      fs_fault = (\<lambda>h e. case e of Fs_unlink p \<Rightarrow> Some ''EPERM'' | _ \<Rightarrow> None),
      exec = (\<lambda>h c. (None, Some [1, 2, 3])),
      path_join = (\<lambda>d f. d @ ''/'' @ f)\<rparr>"

definition pdf_opts0 :: pdf_options where
  "pdf_opts0 =
     \<lparr>method_opt = None, quality = None, maxSizeMB = None, tempDir = None,
      linearize = None, removeUnused = None, compressStreams = None\<rparr>"

definition pdf_world0 :: pdf_world where
  "pdf_world0 = \<lparr>files = [], history = []\<rparr>"

section \<open>Properties of autoRemoveBackground\<close>

subsection \<open>What one provider call returns and leaves in the history\<close>

lemma removeWithService_Inr:
  assumes "removeWithService env s b opts w = (Inr r, w')"
  shows "success r \<and>
         (\<exists>svc. get_prop (services (apiKeys env)) s = Own svc \<and> service_name r = name svc)"
  using assms
  by (auto simp: removeWithService_def Let_def
      split: js_prop.splits if_splits http_outcome.splits)


lemma removeWithLocalModel_Inr:
  assumes "removeWithLocalModel env ''u2net'' b opts w = (Inr r, w')"
  shows "success r \<and> service_name r = ''Local: U^2-Net''"
  using assms
  by (auto simp: removeWithLocalModel_def Let_def get_prop_def localModels_def
      split: prod.splits sum.splits)


subsection \<open>The priority loop\<close>

lemma try_priority_Some:
  "try_priority env b opts ps w = (Some r, w') \<Longrightarrow> success r"
proof (induction ps arbitrary: w)
  case Nil
  then show ?case by simp
next
  case (Cons p ps)
  then show ?case
    by (auto split: if_splits prod.splits sum.splits
        dest: removeWithService_Inr removeWithLocalModel_Inr)
qed




text \<open>
  A name that is not \<open>'local'\<close> and for which \<open>this.services[name]\<close> is
  \<open>undefined\<close> leaves no trace: the loop goes on as if the name were not in the list.
\<close>

lemma unknown_entry_skipped:
  assumes "s \<noteq> ''local''" and "get_prop (services (apiKeys env)) s = Undefined"
  shows "try_priority env b opts (s # rest) w = try_priority env b opts rest w"
  using assms by simp

subsection \<open>Size check\<close>

text \<open>
  C7. An image buffer longer than \<open>maxFileSize\<close> (the option, or 10 MB when the option
  is absent) makes \<open>autoRemoveBackground\<close> fail with the file-too-large error, and
  nothing has happened by then: the history is the one it was called with, so no removal
  method was entered, no HTTP request was sent and the image library was not called.
\<close>

theorem autoRemoveBackground_size_exceeded:
  assumes "int (length imageBuffer) >
             (case maxFileSize opts of None \<Rightarrow> 10 * 1024 * 1024 | Some m \<Rightarrow> m)"
  shows "autoRemoveBackground env imageBuffer opts w =
           (Inl (FileTooLarge (case maxFileSize opts of None \<Rightarrow> 10 * 1024 * 1024 | Some m \<Rightarrow> m)), w)"
  using assms by (simp add: autoRemoveBackground_def Let_def)

text \<open>
  C7, at an input: three bytes against a limit of two, in an environment where the local
  model and two of the services would succeed. The error is the size error and the
  history stays empty.
\<close>

theorem autoRemoveBackground_size_exceeded_witness:
  "int (length [1, 2, 3 :: 8 word]) > 2 \<and>
   autoRemoveBackground env_second [1, 2, 3] (opts0\<lparr>maxFileSize := Some 2\<rparr>) [] =
     (Inl (FileTooLarge 2), [])"
  using autoRemoveBackground_size_exceeded
          [of "opts0\<lparr>maxFileSize := Some 2\<rparr>" "[1, 2, 3]" env_second "[]"]
  by (simp add: opts0_def)

subsection \<open>Totality with the fallback\<close>

text \<open>
  C1, as stated, fails. The buffer below is within the size limit, the priority list is
  not empty, the fallback is enabled, and the one provider fails (no API key). The
  fallback \<open>createBasicTransparency\<close> starts with \<open>sharp(imageBuffer).metadata()\<close>,
  outside any \<open>try\<close>; the image library rejects the buffer, and
  \<open>autoRemoveBackground\<close> throws that rejection instead of returning a result.
\<close>

theorem autoRemoveBackground_fallback_throws:
  "int (length [1, 2, 3 :: 8 word]) \<le> 10 * 1024 * 1024 \<and>
   autoRemoveBackground env_offline [1, 2, 3]
     (opts0\<lparr>priority := Some [''removebg''], fallbackToLocal := Some True\<rparr>) [] =
     (Inl (SharpError ''Input buffer contains unsupported image format''),
      [Enter_removeWithService ''removebg'',
       Console_warn ''removebg'' (ApiKeyRequired ''Remove.bg''),
       Enter_createBasicTransparency,
       Sharp_metadata [1, 2, 3]])"
  by (simp add: autoRemoveBackground_def opts0_def env_offline_def no_keys_def
      removeWithService_def get_prop_def services_def truthy_def
      createBasicTransparency_def metadata_call_def Let_def)

text \<open>
  C1, amended. When the buffer is within the size limit, the fallback is enabled (set to
  true or left out), and the image library can read the buffer and apply the threshold
  chain to it, \<open>autoRemoveBackground\<close> returns a result with \<open>success = true\<close>,
  for every priority list and whatever the providers do.
\<close>

theorem autoRemoveBackground_total_when_image_readable:
  assumes size: "int (length b) \<le>
                   (case maxFileSize opts of None \<Rightarrow> 10 * 1024 * 1024 | Some m \<Rightarrow> m)"
    and fb: "fallbackToLocal opts \<noteq> Some False"
    and dec: "\<forall>h. \<exists>md. sharp_metadata env h b = Inr md"
    and thr: "\<forall>h. \<exists>out. sharp_toBuffer env h (Png (Threshold 240 (EnsureAlpha (Input b)))) = Inr out"
  shows "\<exists>r w'. autoRemoveBackground env b opts w = (Inr r, w') \<and> success r"
proof -
  let ?prio = "case priority opts of None \<Rightarrow> default_priority | Some p \<Rightarrow> p"
  obtain x w1 where t: "try_priority env b opts ?prio w = (x, w1)"
    by (cases "try_priority env b opts ?prio w")
  show ?thesis
  proof (cases x)
    case None
    from dec obtain md where
      md: "sharp_metadata env (w1 @ [Enter_createBasicTransparency]) b = Inr md"
      by blast
    from thr obtain out where
      out: "sharp_toBuffer env (w1 @ [Enter_createBasicTransparency, Sharp_metadata b])
              (Png (Threshold 240 (EnsureAlpha (Input b)))) = Inr out"
      by blast
    have "\<exists>r w'. createBasicTransparency env b w1 = (Inr r, w') \<and> success r"
      using md out
      by (simp add: createBasicTransparency_def metadata_call_def toBuffer_call_def Let_def)
    moreover have "fallbackToLocal opts = None \<or> fallbackToLocal opts = Some True"
      using fb by (cases "fallbackToLocal opts") auto
    ultimately show ?thesis
      using size t None by (auto simp: autoRemoveBackground_def Let_def)
  next
    case (Some r)
    with t have "success r" by (auto dest: try_priority_Some)
    then show ?thesis
      using size t Some by (auto simp: autoRemoveBackground_def Let_def)
  qed
qed

text \<open>
  C1 amended, at an input: the one provider of the list fails (no API key), the image
  library reads the buffer, and the call returns a successful result.
\<close>

theorem autoRemoveBackground_total_when_image_readable_witness:
  "int (length [1, 2, 3 :: 8 word]) \<le> 10 * 1024 * 1024 \<and>
   (\<exists>r w'. autoRemoveBackground env_local [1, 2, 3]
              (opts0\<lparr>priority := Some [''removebg'']\<rparr>) [] = (Inr r, w') \<and> success r)"
  using autoRemoveBackground_total_when_image_readable
          [of "[1, 2, 3]" "opts0\<lparr>priority := Some [''removebg'']\<rparr>" env_local "[]"]
  by (simp add: opts0_def env_local_def)

subsection \<open>Short circuit\<close>



subsection \<open>Names that are not providers\<close>

text \<open>
  C10. The guard of the loop is \<open>this.services[serviceName]\<close>, a lookup that also
  finds what the object inherits. \<open>'constructor'\<close> is neither \<open>'local'\<close> nor the
  key of a registered service, yet it is not skipped in silence:
  \<open>removeWithService('constructor', ...)\<close> is entered, throws for want of an API
  key, and the failure is written to the console. The empty priority list, in the same
  environment, leaves no trace. Both end in the all-services-failed error, and neither
  sends a request.
\<close>

theorem autoRemoveBackground_inherited_name_attempted:
  "autoRemoveBackground env_offline [1, 2, 3]
     (opts0\<lparr>priority := Some [''constructor''], fallbackToLocal := Some False\<rparr>) [] =
     (Inl AllServicesFailed,
      [Enter_removeWithService ''constructor'',
       Console_warn ''constructor'' (ApiKeyRequired ''Object'')])
   \<and> autoRemoveBackground env_offline [1, 2, 3]
     (opts0\<lparr>priority := Some [], fallbackToLocal := Some False\<rparr>) [] =
     (Inl AllServicesFailed, [])"
  by (simp add: autoRemoveBackground_def opts0_def env_offline_def no_keys_def
      removeWithService_def get_prop_def services_def objectPrototype_def Let_def)

section \<open>Properties of replaceBackground\<close>

text \<open>
  C9, as stated, fails in its last part. The caller asks for \<open>png\<close> in its options;
  the output is encoded by \<open>.jpeg({ quality: 90 })\<close> and labelled
  \<open>image/jpeg\<close>. No option is read to choose the encoder. (Here the two images
  differ in size, 2 by 2 against 4 by 3, and the background is resized with cover fit.)
\<close>

theorem replaceBackground_ignores_format:
  "format_opt (opts0\<lparr>format_opt := Some ''png''\<rparr>) = Some ''png'' \<and>
   replaceBackground env_local [1, 2, 3] [4] (opts0\<lparr>format_opt := Some ''png''\<rparr>) [] =
     (Inr \<lparr>c_success = True, c_buffer = [7, 7], c_contentType = ''image/jpeg'',
           dimensions = (2, 2)\<rparr>,
      [Enter_removeWithLocalModel ''u2net'', SetTimeout 2000, Sharp_metadata [1, 2, 3],
       Sharp_toBuffer (Png (CompositeTile (Create 2 2) [255, 255, 255, 255] DestIn)),
       Sharp_toBuffer (Png (Composite (EnsureAlpha (Input [1, 2, 3])) [7, 7] DestIn)),
       Sharp_metadata [7, 7], Sharp_metadata [4], Sharp_toBuffer (Input [7, 7]),
       Sharp_toBuffer (Jpeg 90 (Composite (Resize 2 2 Cover (Input [4])) [7, 7] Over))])"
  by (simp add: replaceBackground_def autoRemoveBackground_def default_priority_def opts0_def
      env_local_def removeWithLocalModel_def get_prop_def localModels_def
      metadata_call_def toBuffer_call_def Let_def)

text \<open>
  C9, amended. Whenever \<open>replaceBackground\<close> returns a result: the foreground is what
  \<open>autoRemoveBackground\<close> returned for the image; after it the image library is
  called four times and no more (the two sizes, the foreground buffer, the composite);
  the last call encodes, as JPEG of quality 90, the foreground laid over the background
  with blend \<open>over\<close>; the background is resized to the foreground's width and height
  with cover fit exactly when the two widths or the two heights differ, and is used as it
  is otherwise; the buffer of the result is what that last call returned, with
  \<open>success = true\<close> and the label \<open>image/jpeg\<close>, whatever the options say.
\<close>

theorem replaceBackground_jpeg:
  assumes ret: "replaceBackground env imageBuffer backgroundBuffer opts w = (Inr r, w')"
  shows "\<exists>foreground w1 fgMetadata bgMetadata fg.
           autoRemoveBackground env imageBuffer opts w = (Inr foreground, w1)
         \<and> sharp_metadata env w1 (result_buffer foreground) = Inr fgMetadata
         \<and> sharp_metadata env (w1 @ [Sharp_metadata (result_buffer foreground)]) backgroundBuffer
             = Inr bgMetadata
         \<and> sharp_toBuffer env
             (w1 @ [Sharp_metadata (result_buffer foreground), Sharp_metadata backgroundBuffer])
             (Input (result_buffer foreground)) = Inr fg
         \<and> last w' =
             Sharp_toBuffer
               (Jpeg 90
                  (Composite
                     (if width fgMetadata \<noteq> width bgMetadata \<or> height fgMetadata \<noteq> height bgMetadata
                      then Resize (width fgMetadata) (height fgMetadata) Cover (Input backgroundBuffer)
                      else Input backgroundBuffer)
                     fg Over))
         \<and> c_contentType r = ''image/jpeg''
         \<and> dimensions r = (width fgMetadata, height fgMetadata)
         \<and> w' =
             w1 @ [Sharp_metadata (result_buffer foreground), Sharp_metadata backgroundBuffer,
                   Sharp_toBuffer (Input (result_buffer foreground)),
                   Sharp_toBuffer
                     (Jpeg 90
                  (Composite
                     (if width fgMetadata \<noteq> width bgMetadata \<or> height fgMetadata \<noteq> height bgMetadata
                      then Resize (width fgMetadata) (height fgMetadata) Cover (Input backgroundBuffer)
                      else Input backgroundBuffer)
                     fg Over))]
         \<and> sharp_toBuffer env
             (w1 @ [Sharp_metadata (result_buffer foreground), Sharp_metadata backgroundBuffer,
                    Sharp_toBuffer (Input (result_buffer foreground))])
             (Jpeg 90
                  (Composite
                     (if width fgMetadata \<noteq> width bgMetadata \<or> height fgMetadata \<noteq> height bgMetadata
                      then Resize (width fgMetadata) (height fgMetadata) Cover (Input backgroundBuffer)
                      else Input backgroundBuffer)
                     fg Over)) = Inr (c_buffer r)
         \<and> c_success r"
proof -
  obtain x w1 where a: "autoRemoveBackground env imageBuffer opts w = (x, w1)"
    by (cases "autoRemoveBackground env imageBuffer opts w")
  from ret a obtain foreground where x: "x = Inr foreground"
    by (cases x) (simp_all add: replaceBackground_def)
  let ?fb = "result_buffer foreground"
  let ?w2 = "w1 @ [Sharp_metadata ?fb]"
  let ?w3 = "?w2 @ [Sharp_metadata backgroundBuffer]"
  let ?w4 = "?w3 @ [Sharp_toBuffer (Input ?fb)]"
  from ret a x obtain fgm where m1: "sharp_metadata env w1 ?fb = Inr fgm"
    by (cases "sharp_metadata env w1 ?fb")
       (simp_all add: replaceBackground_def metadata_call_def)
  from ret a x m1 obtain bgm where m2: "sharp_metadata env ?w2 backgroundBuffer = Inr bgm"
    by (cases "sharp_metadata env ?w2 backgroundBuffer")
       (simp_all add: replaceBackground_def metadata_call_def)
  from ret a x m1 m2 obtain fg where t1: "sharp_toBuffer env ?w3 (Input ?fb) = Inr fg"
    by (cases "sharp_toBuffer env ?w3 (Input ?fb)")
       (simp_all add: replaceBackground_def metadata_call_def toBuffer_call_def Let_def)
  let ?bg = "if width fgm \<noteq> width bgm \<or> height fgm \<noteq> height bgm
             then Resize (width fgm) (height fgm) Cover (Input backgroundBuffer)
             else Input backgroundBuffer"
  let ?p = "Jpeg 90 (Composite ?bg fg Over)"
  from ret a x m1 m2 t1 obtain out where t2: "sharp_toBuffer env ?w4 ?p = Inr out"
    by (cases "sharp_toBuffer env ?w4 ?p")
       (simp_all add: replaceBackground_def metadata_call_def toBuffer_call_def Let_def)
  from ret a x m1 m2 t1 t2 have
    "w' = ?w4 @ [Sharp_toBuffer ?p]" and
    "r = \<lparr>c_success = True, c_buffer = out, c_contentType = ''image/jpeg'',
          dimensions = (width fgm, height fgm)\<rparr>"
    by (simp_all add: replaceBackground_def metadata_call_def toBuffer_call_def Let_def)
  then have "last w' = Sharp_toBuffer ?p" "c_contentType r = ''image/jpeg''"
    "dimensions r = (width fgm, height fgm)"
    "w' = w1 @ [Sharp_metadata ?fb, Sharp_metadata backgroundBuffer, Sharp_toBuffer (Input ?fb),
               Sharp_toBuffer ?p]"
    "c_buffer r = out" "c_success r"
    by simp_all
  with a x m1 m2 t1 t2 show ?thesis
    by (intro exI [of _ foreground] exI [of _ w1] exI [of _ fgm] exI [of _ bgm] exI [of _ fg])
       simp
qed

text \<open>
  C9 amended, at an input: the images differ in size, the caller asks for \<open>webp\<close>.
\<close>

theorem replaceBackground_jpeg_witness:
  "\<exists>r w'. replaceBackground env_local [1, 2, 3] [4] (opts0\<lparr>format_opt := Some ''webp''\<rparr>) []
            = (Inr r, w')
         \<and> last w' = Sharp_toBuffer (Jpeg 90 (Composite (Resize 2 2 Cover (Input [4])) [7, 7] Over))
         \<and> c_contentType r = ''image/jpeg''
         \<and> c_buffer r = [7, 7] \<and> c_success r"
proof -
  let ?opts = "opts0\<lparr>format_opt := Some ''webp''\<rparr>"
  obtain x w' where run: "replaceBackground env_local [1, 2, 3] [4] ?opts [] = (x, w')"
    by (cases "replaceBackground env_local [1, 2, 3] [4] ?opts []")
  have "\<exists>r. x = Inr r"
    using run
    by (auto simp: replaceBackground_def autoRemoveBackground_def default_priority_def opts0_def
        env_local_def removeWithLocalModel_def get_prop_def localModels_def
        metadata_call_def toBuffer_call_def Let_def)
  then obtain r where ret: "replaceBackground env_local [1, 2, 3] [4] ?opts [] = (Inr r, w')"
    using run by auto
  from replaceBackground_jpeg [OF ret] obtain foreground w1 fgMetadata bgMetadata fg where
    all: "autoRemoveBackground env_local [1, 2, 3] ?opts [] = (Inr foreground, w1)
         \<and> sharp_metadata env_local w1 (result_buffer foreground) = Inr fgMetadata
         \<and> sharp_metadata env_local (w1 @ [Sharp_metadata (result_buffer foreground)]) [4]
             = Inr bgMetadata
         \<and> sharp_toBuffer env_local
             (w1 @ [Sharp_metadata (result_buffer foreground), Sharp_metadata [4]])
             (Input (result_buffer foreground)) = Inr fg
         \<and> last w' =
             Sharp_toBuffer
               (Jpeg 90
                  (Composite
                     (if width fgMetadata \<noteq> width bgMetadata \<or> height fgMetadata \<noteq> height bgMetadata
                      then Resize (width fgMetadata) (height fgMetadata) Cover (Input [4])
                      else Input [4])
                     fg Over))
         \<and> c_contentType r = ''image/jpeg''
         \<and> dimensions r = (width fgMetadata, height fgMetadata)
         \<and> w' =
             w1 @ [Sharp_metadata (result_buffer foreground), Sharp_metadata [4],
                   Sharp_toBuffer (Input (result_buffer foreground)),
                   Sharp_toBuffer
                     (Jpeg 90
                  (Composite
                     (if width fgMetadata \<noteq> width bgMetadata \<or> height fgMetadata \<noteq> height bgMetadata
                      then Resize (width fgMetadata) (height fgMetadata) Cover (Input [4])
                      else Input [4])
                     fg Over))]
         \<and> sharp_toBuffer env_local
             (w1 @ [Sharp_metadata (result_buffer foreground), Sharp_metadata [4],
                    Sharp_toBuffer (Input (result_buffer foreground))])
             (Jpeg 90
                  (Composite
                     (if width fgMetadata \<noteq> width bgMetadata \<or> height fgMetadata \<noteq> height bgMetadata
                      then Resize (width fgMetadata) (height fgMetadata) Cover (Input [4])
                      else Input [4])
                     fg Over)) = Inr (c_buffer r)
         \<and> c_success r"
    by (elim exE)
  then have
    m1: "sharp_metadata env_local w1 (result_buffer foreground) = Inr fgMetadata" and
    m2: "sharp_metadata env_local (w1 @ [Sharp_metadata (result_buffer foreground)]) [4]
           = Inr bgMetadata" and
    t1: "sharp_toBuffer env_local
           (w1 @ [Sharp_metadata (result_buffer foreground), Sharp_metadata [4]])
           (Input (result_buffer foreground)) = Inr fg" and
    l: "last w' =
          Sharp_toBuffer
            (Jpeg 90
               (Composite
                  (if width fgMetadata \<noteq> width bgMetadata \<or> height fgMetadata \<noteq> height bgMetadata
                   then Resize (width fgMetadata) (height fgMetadata) Cover (Input [4])
                   else Input [4])
                  fg Over))" and
    c: "c_contentType r = ''image/jpeg''" and
    e: "sharp_toBuffer env_local
          (w1 @ [Sharp_metadata (result_buffer foreground), Sharp_metadata [4],
                 Sharp_toBuffer (Input (result_buffer foreground))])
          (Jpeg 90
                       (Composite
                          (if width fgMetadata \<noteq> width bgMetadata \<or> height fgMetadata \<noteq> height bgMetadata
                           then Resize (width fgMetadata) (height fgMetadata) Cover (Input [4])
                           else Input [4])
                          fg Over)) = Inr (c_buffer r)" and
    ok: "c_success r"
    by simp_all
  have cb: "c_buffer r = [7, 7]" using e by (simp add: env_local_def)
  have fb: "result_buffer foreground = [7, 7]"
    using all
    by (auto simp: autoRemoveBackground_def default_priority_def opts0_def
        env_local_def removeWithLocalModel_def get_prop_def localModels_def
        metadata_call_def toBuffer_call_def Let_def)
  have "fg = [7, 7]" using t1 by (simp add: env_local_def)
  moreover have "bgMetadata = \<lparr>width = 4, height = 3\<rparr>" using m2 by (simp add: env_local_def)
  moreover have "fgMetadata = \<lparr>width = 2, height = 2\<rparr>"
    using m1 fb by (simp add: env_local_def)
  ultimately show ?thesis using ret l c cb ok by simp
qed

section \<open>Properties of batchRemoveBackground\<close>

subsection \<open>One group\<close>

lemma run_batch_index:
  "run_batch env opts i batch index w = (items, w') \<Longrightarrow>
   map item_index items = map (\<lambda>k. i + index + int k) [0..<length batch]"
proof (induction batch arbitrary: index w items w')
  case Nil
  then show ?case by simp
next
  case (Cons b batch)
  obtain r w1 where a: "autoRemoveBackground env b opts w = (r, w1)"
    by (cases "autoRemoveBackground env b opts w")
  obtain rest w2 where r: "run_batch env opts i batch (index + 1) w1 = (rest, w2)"
    by (cases "run_batch env opts i batch (index + 1) w1")
  from Cons.prems a r have items:
    "items = (case r of Inr res \<Rightarrow> Fulfilled res (i + index) | Inl e \<Rightarrow> Rejected e (i + index)) # rest"
    by simp
  have hd: "item_index (case r of Inr res \<Rightarrow> Fulfilled res (i + index) | Inl e \<Rightarrow> Rejected e (i + index)) = i + index"
    by (cases r) simp_all
  have "map item_index rest = map (\<lambda>k. i + (index + 1) + int k) [0..<length batch]"
    by (rule Cons.IH [OF r])
  also have "\<dots> = map (\<lambda>k. i + index + int k) (map Suc [0..<length batch])"
    by (simp add: o_def)
  also have "\<dots> = map (\<lambda>k. i + index + int k) [Suc 0..<Suc (length batch)]"
    by (simp only: map_Suc_upt)
  finally have "map item_index rest = map (\<lambda>k. i + index + int k) [Suc 0..<Suc (length batch)]" .
  moreover have "[0..<length (b # batch)] = 0 # [Suc 0..<Suc (length batch)]"
    by (simp add: upt_conv_Cons del: upt_Suc)
  ultimately show ?case
    using items hd by (simp del: upt_Suc)
qed

text \<open>With a step of at least one, the slice is the next \<open>c\<close> buffers.\<close>

lemma slice_forward:
  assumes "0 \<le> i" "i < int (length xs)" "1 \<le> c"
  shows "slice xs i (i + c) = take (nat c) (drop (nat i) xs)"
proof -
  have "min (i + c) (int (length xs)) - i = min c (int (length xs) - i)" by simp
  then have "take (nat (min (i + c) (int (length xs)) - i)) (drop (nat i) xs) = take (nat c) (drop (nat i) xs)"
    using assms by (simp add: min_def)
  then show ?thesis
    using assms by (simp add: slice_def Let_def)
qed



subsection \<open>The loop over the groups\<close>

lemma index_split:
  "map (\<lambda>k. i + int k) [0..<a + b] =
   map (\<lambda>k. i + int k) [0..<a] @ map (\<lambda>k. (i + int a) + int k) [0..<b]"
proof -
  have "[0..<a + b] = [0..<a] @ [a..<a + b]"
    by (rule upt_add_eq_append) simp
  also have "[a..<a + b] = map (\<lambda>k. k + a) [0..<b]"
    by (simp add: map_add_upt add.commute)
  finally have "[0..<a + b] = [0..<a] @ map (\<lambda>k. k + a) [0..<b]" .
  then show ?thesis
    by (simp add: o_def add.assoc add.commute)
qed

lemma batch_loop_done:
  "\<not> i < int (length bufs) \<Longrightarrow> batch_loop env bufs opts conc i res w = Some (res, w)"
  by (subst batch_loop.simps) simp

lemma batch_loop_step:
  "i < int (length bufs) \<Longrightarrow>
   run_batch env opts i (slice bufs i (i + conc)) 0 w = (items, w1) \<Longrightarrow>
   batch_loop env bufs opts conc i res w =
     batch_loop env bufs opts conc (i + conc) (res @ items)
       (if i + conc < int (length bufs) then w1 @ [SetTimeout 1000] else w1)"
  by (subst batch_loop.simps) simp


text \<open>
  With a step of at least one the loop ends, and the entries it adds carry the indices
  from \<open>i\<close> up to the last one, in order.
\<close>

lemma batch_loop_terminates:
  assumes c: "1 \<le> conc"
  shows "0 \<le> i \<Longrightarrow> i \<le> int (length bufs) \<Longrightarrow>
    \<exists>more w'. batch_loop env bufs opts conc i res w = Some (res @ more, w')
       \<and> map item_index more = map (\<lambda>k. i + int k) [0..<length bufs - nat i]"
proof (induction "length bufs - nat i" arbitrary: i res w rule: less_induct)
  case less
  show ?case
  proof (cases "i < int (length bufs)")
    case False
    with less.prems have "length bufs - nat i = 0" by simp
    with batch_loop_done [OF False] show ?thesis by simp
  next
    case True
    let ?batch = "slice bufs i (i + conc)"
    obtain items w1 where rb: "run_batch env opts i ?batch 0 w = (items, w1)"
      by (cases "run_batch env opts i ?batch 0 w")
    have sl: "?batch = take (nat conc) (drop (nat i) bufs)"
      using slice_forward [OF less.prems(1) True c] .
    have m: "length ?batch = min (nat conc) (length bufs - nat i)"
      unfolding sl by simp
    have idx: "map item_index items = map (\<lambda>k. i + int k) [0..<length ?batch]"
      using run_batch_index [OF rb] by simp
    let ?i' = "i + conc"
    let ?w' = "if ?i' < int (length bufs) then w1 @ [SetTimeout 1000] else w1"
    note step = batch_loop_step [OF True rb, of res]
    show ?thesis
    proof (cases "?i' \<le> int (length bufs)")
      case le: True
      have ni: "nat ?i' = nat i + nat conc"
        using c less.prems(1) by (simp add: nat_add_distrib)
      have le': "nat i + nat conc \<le> length bufs"
        using le ni by linarith
      have dec: "length bufs - nat ?i' < length bufs - nat i"
        unfolding ni using le' c by simp
      have nn: "0 \<le> ?i'" using c less.prems(1) by simp
      from less.hyps [OF dec nn le, of "res @ items" ?w'] obtain more w2 where
        rec: "batch_loop env bufs opts conc ?i' (res @ items) ?w' = Some ((res @ items) @ more, w2)"
        and ridx: "map item_index more = map (\<lambda>k. ?i' + int k) [0..<length bufs - nat ?i']"
        by (elim exE conjE)
      have mm: "length ?batch = nat conc"
        unfolding m using le' by simp
      have len: "length bufs - nat i = nat conc + (length bufs - nat ?i')"
        unfolding ni using le' by simp
      have ic: "int (nat conc) = conc" using c by simp
      have "map item_index (items @ more) = map (\<lambda>k. i + int k) [0..<length bufs - nat i]"
        unfolding len index_split using idx ridx mm ic by simp
      with step rec show ?thesis
        by (intro exI [of _ "items @ more"] exI [of _ w2]) simp
    next
      case gt: False
      then have fin: "batch_loop env bufs opts conc ?i' (res @ items) ?w' = Some (res @ items, w1)"
        using batch_loop_done [of ?i' bufs env opts conc "res @ items" ?w'] by simp
      have "nat i + nat conc > length bufs"
        using gt c less.prems(1) by linarith
      then have "length ?batch = length bufs - nat i"
        unfolding m by simp
      with idx step fin show ?thesis
        by (intro exI [of _ items] exI [of _ w1]) simp
    qed
  qed
qed

text \<open>
  With a step of zero or less and a buffer left to process, the loop never returns:
  \<open>i\<close> does not get past the length.
\<close>

lemma batch_loop_diverges:
  assumes run: "batch_loop env bufs opts conc i res w = Some y"
  shows "\<not> (conc \<le> 0 \<and> i < int (length bufs))"
proof (rule batch_loop.raw_induct
         [where P = "\<lambda>env bufs opts conc i res w y. \<not> (conc \<le> 0 \<and> i < int (length bufs))",
          OF _ run])
  fix loop :: "env \<Rightarrow> buffer list \<Rightarrow> options \<Rightarrow> int \<Rightarrow> int \<Rightarrow> batch_item list \<Rightarrow> world
     \<Rightarrow> (batch_item list \<times> world) option"
  fix env bufs opts conc i res w y
  assume IH: "\<And>env bufs opts conc i res w y.
                loop env bufs opts conc i res w = Some y \<Longrightarrow> \<not> (conc \<le> 0 \<and> i < int (length bufs))"
  assume body:
    "(if i < int (length bufs)
      then case run_batch env opts i (slice bufs i (i + conc)) 0 w of
             (batchResults, w1) \<Rightarrow>
               loop env bufs opts conc (i + conc) (res @ batchResults)
                 (if i + conc < int (length bufs) then w1 @ [SetTimeout 1000] else w1)
      else Some (res, w)) = Some y"
  show "\<not> (conc \<le> 0 \<and> i < int (length bufs))"
  proof
    assume a: "conc \<le> 0 \<and> i < int (length bufs)"
    obtain items w1 where rb: "run_batch env opts i (slice bufs i (i + conc)) 0 w = (items, w1)"
      by (cases "run_batch env opts i (slice bufs i (i + conc)) 0 w")
    from a have lt: "i + conc < int (length bufs)" by simp
    from body a rb lt
    have "loop env bufs opts conc (i + conc) (res @ items) (w1 @ [SetTimeout 1000]) = Some y"
      by simp
    from IH [OF this] a lt show False by simp
  qed
qed

lemma batchRemoveBackground_returns:
  assumes "1 \<le> (case concurrent opts of None \<Rightarrow> 3 | Some c \<Rightarrow> c)"
  shows "\<exists>out w'. batchRemoveBackground env imageBuffers opts w = Some (out, w')"
proof -
  from batch_loop_terminates [OF assms, of 0 imageBuffers env opts "[]" w]
  obtain res w' where
    "batch_loop env imageBuffers opts (case concurrent opts of None \<Rightarrow> 3 | Some c \<Rightarrow> c) 0 [] w
       = Some (res, w')"
    by auto
  then show ?thesis
    by (simp add: batchRemoveBackground_def Let_def)
qed

subsection \<open>Order and counts\<close>

text \<open>
  C2, as stated, fails: it speaks of every concurrency limit. With the limit 0 the loop
  variable never advances (\<open>i += 0\<close>), and with one buffer to process
  \<open>batchRemoveBackground\<close> never returns, neither an outcome nor an error.
\<close>

theorem batchRemoveBackground_zero_limit_never_returns:
  "batchRemoveBackground env_local [[1]] (opts0\<lparr>concurrent := Some 0\<rparr>) [] = None"
proof -
  have "batch_loop env_local [[1]] (opts0\<lparr>concurrent := Some 0\<rparr>) 0 0 [] [] = None"
  proof (cases "batch_loop env_local [[1]] (opts0\<lparr>concurrent := Some 0\<rparr>) 0 0 [] []")
    case None
    then show ?thesis .
  next
    case (Some y)
    from batch_loop_diverges [OF Some] show ?thesis by simp
  qed
  then show ?thesis
    by (simp add: batchRemoveBackground_def opts0_def)
qed

text \<open>
  C2, amended. For every list of image buffers and every concurrency limit that is an
  integer of at least one (the option, or 3 when the option is absent),
  \<open>batchRemoveBackground\<close> returns an outcome: the entry at position \<open>k\<close> of
  \<open>results\<close> carries the index \<open>k\<close>, \<open>total\<close> is the number of buffers, and
  \<open>successful + failed = total\<close>. This holds in every environment, so also when
  every item fails.
\<close>

theorem batchRemoveBackground_ordered_and_counted:
  assumes c: "1 \<le> (case concurrent opts of None \<Rightarrow> 3 | Some c \<Rightarrow> c)"
  shows "\<exists>out w'. batchRemoveBackground env imageBuffers opts w = Some (out, w')
           \<and> map item_index (results out) = map int [0..<length imageBuffers]
           \<and> total_n out = length imageBuffers
           \<and> successful out + failed out = total_n out"
proof -
  let ?conc = "case concurrent opts of None \<Rightarrow> 3 | Some c \<Rightarrow> c"
  from batch_loop_terminates [OF c, of 0 imageBuffers env opts "[]" w]
  obtain res w' where
    run: "batch_loop env imageBuffers opts ?conc 0 [] w = Some (res, w')" and
    idx: "map item_index res = map (\<lambda>k. 0 + int k) [0..<length imageBuffers - nat 0]"
    by auto
  from idx have idx': "map item_index res = map int [0..<length imageBuffers]"
    by simp
  then have "length (map item_index res) = length (map int [0..<length imageBuffers])"
    by (rule arg_cong)
  then have len: "length res = length imageBuffers" by simp
  have cnt: "length (filter item_success res) + length (filter (\<lambda>r. \<not> item_success r) res)
               = length res"
    by (rule sum_length_filter_compl)
  show ?thesis
    using run idx' len cnt by (simp add: batchRemoveBackground_def Let_def)
qed

text \<open>
  C2 amended, at an input: four buffers, groups of three, every provider failing and the
  fallback disabled, so that every item fails.
\<close>

theorem batchRemoveBackground_ordered_and_counted_witness:
  "(1::int) \<le> 3 \<and>
   (\<exists>out w'. batchRemoveBackground env_offline [[1], [2], [3], [4]] (opts0\<lparr>fallbackToLocal := Some False\<rparr>) []
                = Some (out, w')
      \<and> map item_index (results out) = [0, 1, 2, 3]
      \<and> total_n out = 4
      \<and> successful out + failed out = total_n out)"
proof -
  have "[0..<length [[1], [2], [3], [4 :: 8 word]]] = [0, 1, 2, 3]"
    by (simp add: upt_conv_Cons)
  then show ?thesis
    using batchRemoveBackground_ordered_and_counted
          [of "opts0\<lparr>fallbackToLocal := Some False\<rparr>" env_offline "[[1], [2], [3], [4]]" "[]"]
    by (simp add: opts0_def eval_nat_numeral)
qed

subsection \<open>Estimated cost\<close>

text \<open>
  C3, as stated, fails. One buffer, resolved by the local model at cost 0: the cost by
  provider is 0, and the outcome reports an estimated cost of 0.02.
\<close>

theorem batchRemoveBackground_local_item_costed:
  "batchRemoveBackground env_local [[1]] opts0 [] =
     Some (\<lparr>total_n = 1, successful = 1, failed = 0,
            results =
              [Fulfilled
                 \<lparr>success = True, service_name = ''Local: U^2-Net'', result_buffer = [7, 7],
                  contentType = ''image/png'', cost = 0,
                  note_opt = Some ''This is a demo. Install proper model for accurate results.''\<rparr>
                 0],
            estimatedCost = 2 / 100\<rparr>,
           [Enter_removeWithLocalModel ''u2net'', SetTimeout 2000, Sharp_metadata [1],
            Sharp_toBuffer (Png (CompositeTile (Create 2 2) [255, 255, 255, 255] DestIn)),
            Sharp_toBuffer (Png (Composite (EnsureAlpha (Input [1])) [7, 7] DestIn))])
   \<and> paid_provider_cost
        [Fulfilled
           \<lparr>success = True, service_name = ''Local: U^2-Net'', result_buffer = [7, 7],
            contentType = ''image/png'', cost = 0,
            note_opt = Some ''This is a demo. Install proper model for accurate results.''\<rparr>
           0] = 0"
proof -
  have a: "autoRemoveBackground env_local [1] opts0 [] =
     (Inr \<lparr>success = True, service_name = ''Local: U^2-Net'', result_buffer = [7, 7],
                  contentType = ''image/png'', cost = 0,
                  note_opt = Some ''This is a demo. Install proper model for accurate results.''\<rparr>,
      [Enter_removeWithLocalModel ''u2net'', SetTimeout 2000, Sharp_metadata [1],
            Sharp_toBuffer (Png (CompositeTile (Create 2 2) [255, 255, 255, 255] DestIn)),
            Sharp_toBuffer (Png (Composite (EnsureAlpha (Input [1])) [7, 7] DestIn))])"
    by (simp add: autoRemoveBackground_def default_priority_def opts0_def
        env_local_def removeWithLocalModel_def get_prop_def localModels_def
        metadata_call_def toBuffer_call_def Let_def)
  have s: "slice [[1 :: 8 word]] 0 3 = [[1]]"
    by (simp add: slice_def)
  have rb: "run_batch env_local opts0 0 (slice [[1]] 0 (0 + 3)) 0 [] =
     ([Fulfilled \<lparr>success = True, service_name = ''Local: U^2-Net'', result_buffer = [7, 7],
                  contentType = ''image/png'', cost = 0,
                  note_opt = Some ''This is a demo. Install proper model for accurate results.''\<rparr> 0],
      [Enter_removeWithLocalModel ''u2net'', SetTimeout 2000, Sharp_metadata [1],
            Sharp_toBuffer (Png (CompositeTile (Create 2 2) [255, 255, 255, 255] DestIn)),
            Sharp_toBuffer (Png (Composite (EnsureAlpha (Input [1])) [7, 7] DestIn))])"
    using a s by simp
  have "batch_loop env_local [[1]] opts0 3 0 [] [] = Some
     ([Fulfilled \<lparr>success = True, service_name = ''Local: U^2-Net'', result_buffer = [7, 7],
                  contentType = ''image/png'', cost = 0,
                  note_opt = Some ''This is a demo. Install proper model for accurate results.''\<rparr> 0],
      [Enter_removeWithLocalModel ''u2net'', SetTimeout 2000, Sharp_metadata [1],
            Sharp_toBuffer (Png (CompositeTile (Create 2 2) [255, 255, 255, 255] DestIn)),
            Sharp_toBuffer (Png (Composite (EnsureAlpha (Input [1])) [7, 7] DestIn))])"
    using batch_loop_step [OF _ rb, of "[]"] 
    by (simp add: batch_loop_done)
  then show ?thesis
    by (simp add: batchRemoveBackground_def opts0_def paid_provider_cost_def)
qed

text \<open>
  C3, amended. In every batch outcome the estimated cost is the number of successful
  items times 0.02, whichever provider resolved them: an item resolved by the local
  model, by the fallback or by a dearer service counts 0.02 like any other.
\<close>

theorem batchRemoveBackground_flat_estimate:
  assumes "batchRemoveBackground env imageBuffers opts w = Some (out, w')"
  shows "estimatedCost out = of_nat (successful out) * (2 / 100)
         \<and> successful out = length (filter item_success (results out))"
  using assms
  by (auto simp: batchRemoveBackground_def Let_def split: option.splits)

text \<open>
  C3 amended, at an input: one buffer, resolved by the second service of the list.
\<close>

theorem batchRemoveBackground_flat_estimate_witness:
  "\<exists>out w'. batchRemoveBackground env_second [[1]]
               (opts0\<lparr>priority := Some [''removebg'', ''backgrounds'']\<rparr>) [] = Some (out, w')
      \<and> estimatedCost out = of_nat (successful out) * (2 / 100)
      \<and> successful out = length (filter item_success (results out))"
proof -
  let ?opts = "opts0\<lparr>priority := Some [''removebg'', ''backgrounds'']\<rparr>"
  have "1 \<le> (case concurrent ?opts of None \<Rightarrow> 3 | Some c \<Rightarrow> c)"
    by (simp add: opts0_def)
  from batchRemoveBackground_returns [OF this, of env_second "[[1]]" "[]"]
  obtain out w' where run: "batchRemoveBackground env_second [[1]] ?opts [] = Some (out, w')"
    by (elim exE)
  from run batchRemoveBackground_flat_estimate [OF run] show ?thesis
    by blast
qed

section \<open>Properties of compress\<close>

subsection \<open>Histories and files\<close>

lemma written_paths_append [simp]: "written_paths (a @ b) = written_paths a @ written_paths b"
  by (simp add: written_paths_def)

lemma qualities_tried_append [simp]: "qualities_tried (a @ b) = qualities_tried a @ qualities_tried b"
  by (simp add: qualities_tried_def)

lemma written_paths_Nil [simp]: "written_paths [] = []"
  by (simp add: written_paths_def)

lemma qualities_tried_Nil [simp]: "qualities_tried [] = []"
  by (simp add: qualities_tried_def)

lemma written_paths_single [simp]: "written_paths [e] = written e"
  by (simp add: written_paths_def)

lemma qualities_tried_single [simp]: "qualities_tried [e] = tried e"
  by (simp add: qualities_tried_def)

lemma map_of_del_file: "map_of (del_file p fs) q = (if q = p then None else map_of fs q)"
  by (induction fs) (auto simp: del_file_def)

lemma map_of_put_file: "map_of (put_file p b fs) q = (if q = p then Some b else map_of fs q)"
  using map_of_del_file [of p fs q] by (simp add: put_file_def del_file_def)

lemma file_exists_put [simp]:
  "file_exists (w\<lparr>files := put_file p b (files w)\<rparr>) q \<longleftrightarrow> q = p \<or> file_exists w q"
  by (simp add: file_exists_def map_of_put_file)

lemma file_exists_del [simp]:
  "file_exists (w\<lparr>files := del_file p (files w)\<rparr>) q \<longleftrightarrow> q \<noteq> p \<and> file_exists w q"
  by (simp add: file_exists_def map_of_del_file)

lemma file_exists_logged [simp]: "file_exists (logged e w) q = file_exists w q"
  by (simp add: file_exists_def logged_def)

lemma history_logged [simp]: "history (logged e w) = history w @ [e]"
  by (simp add: logged_def)

lemma history_files_update [simp]: "history (w\<lparr>files := f\<rparr>) = history w"
  by simp

lemma touches_refl: "touches S w w"
  by (simp add: touches_def)

lemma touches_trans: "touches S w w1 \<Longrightarrow> touches S w1 w2 \<Longrightarrow> touches S w w2"
  unfolding touches_def
  by (elim conjE exE, intro conjI, rule_tac x = "evs @ evsa" in exI) auto

lemma touches_mono: "S \<subseteq> T \<Longrightarrow> touches S w w' \<Longrightarrow> touches T w w'"
  unfolding touches_def by blast

lemma touches_logged: "written e = [] \<Longrightarrow> tried e = [] \<Longrightarrow> touches S w (logged e w)"
  by (simp add: touches_def)

lemma touches_mkdir: "touches S w (snd (fs_mkdir env p w))"
  by (simp add: fs_mkdir_def touches_def split: option.splits)

lemma touches_writeFile: "p \<in> S \<Longrightarrow> touches S w (snd (fs_writeFile env p b w))"
  by (simp add: fs_writeFile_def touches_def split: option.splits)

lemma touches_readFile: "touches S w (snd (fs_readFile env p w))"
  by (simp add: fs_readFile_def touches_def split: option.splits)

lemma touches_stat: "touches S w (snd (fs_stat env p w))"
  by (simp add: fs_stat_def touches_def split: option.splits)

lemma touches_unlink: "touches S w (snd (fs_unlink env p w))"
  by (simp add: fs_unlink_def touches_def split: option.splits)

lemma touches_run_command: "output_of c \<in> S \<Longrightarrow> touches S w (snd (run_command env c w))"
  by (simp add: run_command_def touches_def split: prod.splits option.splits)

subsection \<open>What each step touches\<close>

lemma touches_cleanupFiles: "touches S w (cleanupFiles env ps w)"
proof (induction ps arbitrary: w)
  case Nil
  show ?case by (simp add: touches_refl)
next
  case (Cons p ps)
  obtain r w1 where u: "fs_unlink env p w = (r, w1)" by (cases "fs_unlink env p w")
  have t1: "touches S w w1" using touches_unlink [of S w env p] u by simp
  show ?case
  proof (cases r)
    case None
    with u have "cleanupFiles env (p # ps) w = cleanupFiles env ps w1" by simp
    with touches_trans [OF t1 Cons.IH [of w1]] show ?thesis by simp
  next
    case (Some code)
    let ?w2 = "if code \<noteq> ''ENOENT'' then logged (Console_warn_unlink p code) w1 else w1"
    have "touches S w1 ?w2" by (simp add: touches_logged touches_refl)
    with t1 have "touches S w ?w2" by (rule touches_trans)
    moreover from u Some have "cleanupFiles env (p # ps) w = cleanupFiles env ps ?w2" by simp
    ultimately show ?thesis using touches_trans [OF _ Cons.IH [of ?w2]] by simp
  qed
qed

lemma touches_gs:
  "outputPath \<in> S \<Longrightarrow> touches S w (snd (compressWithGhostscript env inputPath outputPath q w))"
proof -
  assume s: "outputPath \<in> S"
  let ?c = "Gs (qualitySetting q) (if q = ''screen'' then 72 else 150) outputPath inputPath"
  obtain r w1 where rc: "run_command env ?c w = (r, w1)" by (cases "run_command env ?c w")
  have t1: "touches S w w1" using touches_run_command [of ?c S w env] s rc by simp
  show ?thesis
  proof (cases r)
    case (Some msg)
    with rc t1 show ?thesis by (simp add: compressWithGhostscript_def Let_def)
  next
    case None
    obtain x w2 where st: "fs_stat env outputPath w1 = (x, w2)" by (cases "fs_stat env outputPath w1")
    have "touches S w1 w2" using touches_stat [of S w1 env outputPath] st by simp
    with t1 have "touches S w w2" by (rule touches_trans)
    with rc None st show ?thesis
      by (simp add: compressWithGhostscript_def Let_def split: sum.splits pdf_error.splits)
  qed
qed

lemma touches_qpdf:
  "outputPath \<in> S \<Longrightarrow> touches S w (snd (compressWithQPdf env inputPath outputPath opts w))"
proof -
  assume s: "outputPath \<in> S"
  let ?c = "Qpdf inputPath outputPath (qpdf_flags opts)"
  obtain r w1 where rc: "run_command env ?c w = (r, w1)" by (cases "run_command env ?c w")
  have t1: "touches S w w1" using touches_run_command [of ?c S w env] s rc by simp
  show ?thesis
  proof (cases r)
    case (Some msg)
    with rc t1 show ?thesis by (simp add: compressWithQPdf_def)
  next
    case None
    obtain x w2 where st: "fs_stat env outputPath w1 = (x, w2)" by (cases "fs_stat env outputPath w1")
    have "touches S w1 w2" using touches_stat [of S w1 env outputPath] st by simp
    with t1 have "touches S w w2" by (rule touches_trans)
    with rc None st show ?thesis
      by (simp add: compressWithQPdf_def split: sum.splits pdf_error.splits)
  qed
qed

text \<open>The method chosen by the switch, as one step.\<close>

lemma touches_method:
  assumes "outputPath \<in> S"
  shows "touches S w
    (snd (if toLowerCase (method_of opts) = ''ghostscript''
          then compressWithGhostscript env inputPath outputPath (quality_of opts) w
          else if toLowerCase (method_of opts) = ''qpdf''
          then compressWithQPdf env inputPath outputPath opts w
          else (Inl (UnsupportedMethod (method_of opts)), w)))"
  using assms by (simp add: touches_gs touches_qpdf touches_refl)

lemma touches_compress_once:
  "touches {inputPath, outputPath} w (snd (compress_once env inputBuffer opts inputPath outputPath w))"
proof -
  let ?S = "{inputPath, outputPath}"
  obtain x1 w1 where wr: "fs_writeFile env inputPath inputBuffer w = (x1, w1)"
    by (cases "fs_writeFile env inputPath inputBuffer w")
  have t1: "touches ?S w w1" using touches_writeFile [of inputPath ?S w env inputBuffer] wr by simp
  show ?thesis
  proof (cases x1)
    case (Inl e)
    with wr t1 show ?thesis by (simp add: compress_once_def)
  next
    case (Inr u)
    let ?m = "if toLowerCase (method_of opts) = ''ghostscript''
          then compressWithGhostscript env inputPath outputPath (quality_of opts) w1
          else if toLowerCase (method_of opts) = ''qpdf''
          then compressWithQPdf env inputPath outputPath opts w1
          else (Inl (UnsupportedMethod (method_of opts)), w1)"
    obtain x2 w2 where me: "?m = (x2, w2)" by (cases ?m)
    have "touches ?S w1 w2" using touches_method [of outputPath ?S w1 opts env inputPath] me by simp
    with t1 have t2: "touches ?S w w2" by (rule touches_trans)
    show ?thesis
    proof (cases x2)
      case (Inl e)
      with wr Inr me t2 show ?thesis by (simp add: compress_once_def)
    next
      case r: (Inr n)
      obtain x3 w3 where rd: "fs_readFile env outputPath w2 = (x3, w3)"
        by (cases "fs_readFile env outputPath w2")
      have "touches ?S w2 w3" using touches_readFile [of ?S w2 env outputPath] rd by simp
      with t2 have t3: "touches ?S w w3" by (rule touches_trans)
      show ?thesis
      proof (cases x3)
        case (Inl e)
        with wr Inr me r rd t3 show ?thesis by (simp add: compress_once_def)
      next
        case b: (Inr c)
        have "touches ?S w (cleanupFiles env [inputPath, outputPath] w3)"
          using touches_trans [OF t3 touches_cleanupFiles] .
        with wr Inr me r rd b show ?thesis by (simp add: compress_once_def)
      qed
    qed
  qed
qed

subsection \<open>Cleanup when unlink is not refused\<close>

lemma touches_empty_files: "touches {} w w' \<Longrightarrow> file_exists w' p \<Longrightarrow> file_exists w p"
  by (auto simp: touches_def)

lemma unlink_removes:
  assumes "\<forall>h p. fs_fault env h (Fs_unlink p) = None"
  shows "\<not> file_exists (snd (fs_unlink env p w)) p"
  using assms by (simp add: fs_unlink_def)

lemma cleanup_removes:
  assumes nf: "\<forall>h p. fs_fault env h (Fs_unlink p) = None"
  shows "p \<in> set ps \<Longrightarrow> \<not> file_exists (cleanupFiles env ps w) p"
proof (induction ps arbitrary: w)
  case Nil
  then show ?case by simp
next
  case (Cons q ps)
  obtain r w1 where u: "fs_unlink env q w = (r, w1)" by (cases "fs_unlink env q w")
  let ?w2 = "case r of None \<Rightarrow> w1
             | Some code \<Rightarrow> if code \<noteq> ''ENOENT'' then logged (Console_warn_unlink q code) w1 else w1"
  have step: "cleanupFiles env (q # ps) w = cleanupFiles env ps ?w2"
    using u by (cases r) simp_all
  show ?case
  proof (cases "p = q")
    case True
    have "\<not> file_exists w1 q" using unlink_removes [OF nf, of q w] u by simp
    then have "\<not> file_exists ?w2 q" by (cases r) simp_all
    with touches_empty_files [OF touches_cleanupFiles [of "{}" ?w2 env ps], of q]
    show ?thesis using step True by auto
  next
    case False
    with Cons.prems have "p \<in> set ps" by simp
    from Cons.IH [OF this, of ?w2] show ?thesis using step by simp
  qed
qed

lemma compress_once_Inr_absent:
  assumes nf: "\<forall>h p. fs_fault env h (Fs_unlink p) = None"
    and ret: "compress_once env inputBuffer opts inputPath outputPath w = (Inr c, w1)"
  shows "\<not> file_exists w1 inputPath \<and> \<not> file_exists w1 outputPath"
proof -
  from ret obtain w3 where "w1 = cleanupFiles env [inputPath, outputPath] w3"
    by (auto simp: compress_once_def simp del: cleanupFiles.simps split: prod.splits sum.splits)
  then show ?thesis
    using cleanup_removes [OF nf, of inputPath "[inputPath, outputPath]" w3]
      cleanup_removes [OF nf, of outputPath "[inputPath, outputPath]" w3]
    by simp
qed

lemma compress_cases [case_names mkdir_failed attempt_failed within retry]:
  fixes env inputBuffer opts w
  defines "w00 \<equiv> logged (Enter_compress (method_of opts) (quality_of opts)) w"
  obtains
    (mkdir_failed) e w1 where
      "fs_mkdir env (tempDir_of opts) w00 = (Inl e, w1)"
      "compress env inputBuffer opts w = (Inl e, w1)"
  | (attempt_failed) u w0 ip op e w1 where
      "fs_mkdir env (tempDir_of opts) w00 = (Inr u, w0)"
      "call_paths env opts w = (ip, op)"
      "compress_once env inputBuffer opts ip op (logged Date_now w0) = (Inl e, w1)"
      "compress env inputBuffer opts w = (Inl e, cleanupFiles env [ip, op] w1)"
  | (within) u w0 ip op c w1 where
      "fs_mkdir env (tempDir_of opts) w00 = (Inr u, w0)"
      "call_paths env opts w = (ip, op)"
      "compress_once env inputBuffer opts ip op (logged Date_now w0) = (Inr c, w1)"
      "\<not> (over_budget opts c \<and> quality_of opts \<noteq> ''screen'')"
      "compress env inputBuffer opts w =
         (Inr \<lparr>p_success = True, originalSize = length inputBuffer,
               compressedSize = length c, p_buffer = c, methodUsed = method_of opts\<rparr>, w1)"
  | (retry) u w0 ip op c w1 where
      "fs_mkdir env (tempDir_of opts) w00 = (Inr u, w0)"
      "call_paths env opts w = (ip, op)"
      "compress_once env inputBuffer opts ip op (logged Date_now w0) = (Inr c, w1)"
      "over_budget opts c" "quality_of opts \<noteq> ''screen''"
      "compress env inputBuffer opts w =
         (case compress env inputBuffer (opts\<lparr>quality := Some ''screen''\<rparr>) (logged Console_log w1) of
            (Inl e, w2) \<Rightarrow> (Inl e, cleanupFiles env [ip, op] w2)
          | (Inr r, w2) \<Rightarrow> (Inr r, w2))"
proof -
  obtain x w0 where mk: "fs_mkdir env (tempDir_of opts) w00 = (x, w0)"
    by (cases "fs_mkdir env (tempDir_of opts) w00")
  show thesis
  proof (cases x)
    case (Inl e)
    with mk have "compress env inputBuffer opts w = (Inl e, w0)"
      unfolding w00_def by (subst compress.simps) simp
    with mk Inl show thesis by (intro mkdir_failed [of e w0]) simp_all
  next
    case (Inr u)
    obtain ip op where tp: "temp_paths env opts w0 = (ip, op)"
      by (cases "temp_paths env opts w0")
    with mk have cp: "call_paths env opts w = (ip, op)"
      by (simp add: call_paths_def w00_def)
    obtain y w1 where co: "compress_once env inputBuffer opts ip op (logged Date_now w0) = (y, w1)"
      by (cases "compress_once env inputBuffer opts ip op (logged Date_now w0)")
    show thesis
    proof (cases y)
      case e: (Inl e)
      have "compress env inputBuffer opts w = (Inl e, cleanupFiles env [ip, op] w1)"
        using mk Inr tp co e unfolding w00_def by (subst compress.simps) simp
      with mk Inr cp co e show thesis by (intro attempt_failed [of u w0 ip op e w1]) simp_all
    next
      case c: (Inr c)
      show thesis
      proof (cases "over_budget opts c \<and> quality_of opts \<noteq> ''screen''")
        case True
        have "compress env inputBuffer opts w =
         (case compress env inputBuffer (opts\<lparr>quality := Some ''screen''\<rparr>) (logged Console_log w1) of
            (Inl e, w2) \<Rightarrow> (Inl e, cleanupFiles env [ip, op] w2)
          | (Inr r, w2) \<Rightarrow> (Inr r, w2))"
          using mk Inr tp co c True unfolding w00_def by (subst compress.simps) simp
        with mk Inr cp co c True show thesis by (intro retry [of u w0 ip op c w1]) simp_all
      next
        case False
        have "compress env inputBuffer opts w =
         (Inr \<lparr>p_success = True, originalSize = length inputBuffer,
               compressedSize = length c, p_buffer = c, methodUsed = method_of opts\<rparr>, w1)"
          using mk Inr tp co c False unfolding w00_def by (subst compress.simps) auto
        with mk Inr cp co c False show thesis by (intro within [of u w0 ip op c w1]) simp_all
      qed
    qed
  qed
qed

declare cleanupFiles.simps [simp del]

lemma clean_logged: "written e = [] \<Longrightarrow> clean w (logged e w)"
  by (simp add: clean_def)

lemma clean_trans: "clean a b \<Longrightarrow> clean b c \<Longrightarrow> clean a c"
  unfolding clean_def
  by (elim conjE exE, intro conjI, rule_tac x = "evs @ evsa" in exI) auto

lemma touches_absent_clean:
  "touches S w w' \<Longrightarrow> \<forall>p \<in> S. \<not> file_exists w' p \<Longrightarrow> clean w w'"
  unfolding touches_def clean_def by blast

lemma touches_empty_clean: "touches {} w w' \<Longrightarrow> clean w w'"
  using touches_absent_clean [of "{}" w w'] by simp

lemma clean_files: "clean w w' \<Longrightarrow> \<not> file_exists w p \<Longrightarrow> \<not> file_exists w' p"
  by (auto simp: clean_def)

lemma head_touches:
  assumes "fs_mkdir env d w00 = (x, w0)"
    and "compress_once env inputBuffer opts ip op (logged Date_now w0) = (y, w1)"
  shows "touches {ip, op} w00 w1"
proof -
  have "touches {ip, op} w00 w0" using touches_mkdir [of "{ip, op}" w00 env d] assms(1) by simp
  moreover have "touches {ip, op} w0 (logged Date_now w0)" by (simp add: touches_logged)
  moreover have "touches {ip, op} (logged Date_now w0) w1"
    using touches_compress_once [of ip op "logged Date_now w0" env inputBuffer opts] assms(2) by simp
  ultimately show ?thesis by (blast intro: touches_trans)
qed

lemma compress_clean_step:
  assumes nf: "\<forall>h p. fs_fault env h (Fs_unlink p) = None"
    and inner: "quality_of opts \<noteq> ''screen'' \<Longrightarrow>
                 (\<And>w'. clean w' (snd (compress env inputBuffer (opts\<lparr>quality := Some ''screen''\<rparr>) w')))"
  shows "clean w (snd (compress env inputBuffer opts w))
         \<and> (\<forall>u w0. fs_mkdir env (tempDir_of opts)
                      (logged (Enter_compress (method_of opts) (quality_of opts)) w) = (Inr u, w0) \<longrightarrow>
              \<not> file_exists (snd (compress env inputBuffer opts w)) (fst (call_paths env opts w))
            \<and> \<not> file_exists (snd (compress env inputBuffer opts w)) (snd (call_paths env opts w)))"
proof -
  let ?w00 = "logged (Enter_compress (method_of opts) (quality_of opts)) w"
  have c0: "clean w ?w00" by (simp add: clean_logged)
  show ?thesis
  proof (cases rule: compress_cases [where env = env and opts = opts and w = w
                                        and inputBuffer = inputBuffer])
    case (mkdir_failed e w1)
    have "touches {} ?w00 w1" using touches_mkdir [of "{}" ?w00 env "tempDir_of opts"] mkdir_failed(1) by simp
    then have "clean ?w00 w1" by (rule touches_empty_clean)
    with c0 have "clean w w1" by (rule clean_trans)
    with mkdir_failed show ?thesis by simp
  next
    case (attempt_failed u w0 ip op e w1)
    let ?f = "cleanupFiles env [ip, op] w1"
    have "touches {ip, op} ?w00 w1" using head_touches [OF attempt_failed(1) attempt_failed(3)] .
    then have "touches {ip, op} ?w00 ?f" using touches_cleanupFiles by (rule touches_trans)
    moreover have ab: "\<not> file_exists ?f ip \<and> \<not> file_exists ?f op"
      using cleanup_removes [OF nf, of ip "[ip, op]" w1] cleanup_removes [OF nf, of op "[ip, op]" w1]
      by simp
    ultimately have "clean ?w00 ?f" using touches_absent_clean [of "{ip, op}" ?w00 ?f] by simp
    with c0 have "clean w ?f" by (rule clean_trans)
    with attempt_failed ab show ?thesis by simp
  next
    case (within u w0 ip op c w1)
    have t: "touches {ip, op} ?w00 w1" using head_touches [OF within(1) within(3)] .
    have ab: "\<not> file_exists w1 ip \<and> \<not> file_exists w1 op"
      using compress_once_Inr_absent [OF nf within(3)] .
    from t ab have "clean ?w00 w1" using touches_absent_clean [of "{ip, op}" ?w00 w1] by simp
    with c0 have "clean w w1" by (rule clean_trans)
    with within ab show ?thesis by simp
  next
    case (retry u w0 ip op c w1)
    have t: "touches {ip, op} ?w00 w1" using head_touches [OF retry(1) retry(3)] .
    have ab: "\<not> file_exists w1 ip \<and> \<not> file_exists w1 op"
      using compress_once_Inr_absent [OF nf retry(3)] .
    from t ab have "clean ?w00 w1" using touches_absent_clean [of "{ip, op}" ?w00 w1] by simp
    with c0 have c1: "clean w w1" by (rule clean_trans)
    let ?w1' = "logged Console_log w1"
    have "clean w1 ?w1'" by (simp add: clean_logged)
    with c1 have c1': "clean w ?w1'" by (rule clean_trans)
    have ab': "\<not> file_exists ?w1' ip \<and> \<not> file_exists ?w1' op" using ab by simp
    obtain y w2 where rec: "compress env inputBuffer (opts\<lparr>quality := Some ''screen''\<rparr>) ?w1' = (y, w2)"
      by (cases "compress env inputBuffer (opts\<lparr>quality := Some ''screen''\<rparr>) ?w1'")
    have c2: "clean ?w1' w2" using inner [OF retry(5), of ?w1'] rec by simp
    with c1' have cw2: "clean w w2" by (rule clean_trans)
    have ab2: "\<not> file_exists w2 ip \<and> \<not> file_exists w2 op"
      using clean_files [OF c2] ab' by blast
    show ?thesis
    proof (cases y)
      case (Inr r)
      with retry rec cw2 ab2 show ?thesis by simp
    next
      case (Inl e)
      let ?f = "cleanupFiles env [ip, op] w2"
      have "clean w2 ?f" using touches_cleanupFiles [of "{}" w2 env "[ip, op]"] by (rule touches_empty_clean)
      with cw2 have "clean w ?f" by (rule clean_trans)
      moreover have "\<not> file_exists ?f ip \<and> \<not> file_exists ?f op"
        using cleanup_removes [OF nf, of ip "[ip, op]" w2] cleanup_removes [OF nf, of op "[ip, op]" w2]
        by simp
      ultimately show ?thesis using retry rec Inl by simp
    qed
  qed
qed

lemma quality_of_screen [simp]: "quality_of (opts\<lparr>quality := Some q\<rparr>) = q"
  by (simp add: quality_of_def)

lemma compress_clean:
  assumes nf: "\<forall>h p. fs_fault env h (Fs_unlink p) = None"
  shows "clean w (snd (compress env inputBuffer opts w))
         \<and> (\<forall>u w0. fs_mkdir env (tempDir_of opts)
                      (logged (Enter_compress (method_of opts) (quality_of opts)) w) = (Inr u, w0) \<longrightarrow>
              \<not> file_exists (snd (compress env inputBuffer opts w)) (fst (call_paths env opts w))
            \<and> \<not> file_exists (snd (compress env inputBuffer opts w)) (snd (call_paths env opts w)))"
proof (rule compress_clean_step [OF nf])
  fix w'
  show "clean w' (snd (compress env inputBuffer (opts\<lparr>quality := Some ''screen''\<rparr>) w'))"
    using compress_clean_step [OF nf, of "opts\<lparr>quality := Some ''screen''\<rparr>" inputBuffer w']
    by simp
qed

subsection \<open>Which qualities a call tries\<close>

lemma touches_tried: "touches S a b \<Longrightarrow> qualities_tried (history b) = qualities_tried (history a)"
  by (auto simp: touches_def)

lemma first_attempt_mkdir_Inl:
  "fs_mkdir env (tempDir_of opts) (logged (Enter_compress (method_of opts) (quality_of opts)) w) = (Inl e, w1)
   \<Longrightarrow> first_attempt env inputBuffer opts w = (Inl e, w1)"
  by (simp add: first_attempt_def)

lemma first_attempt_mkdir_Inr:
  "fs_mkdir env (tempDir_of opts) (logged (Enter_compress (method_of opts) (quality_of opts)) w) = (Inr u, w0)
   \<Longrightarrow> call_paths env opts w = (ip, op)
   \<Longrightarrow> first_attempt env inputBuffer opts w = compress_once env inputBuffer opts ip op (logged Date_now w0)"
  by (simp add: first_attempt_def call_paths_def)

lemma compress_tried_step:
  assumes inner: "quality_of opts \<noteq> ''screen'' \<Longrightarrow>
     (\<And>w'. qualities_tried (history (snd (compress env inputBuffer (opts\<lparr>quality := Some ''screen''\<rparr>) w')))
            = qualities_tried (history w') @ [''screen''])"
  shows "qualities_tried (history (snd (compress env inputBuffer opts w))) =
         qualities_tried (history w) @
           (if (\<exists>c w1. first_attempt env inputBuffer opts w = (Inr c, w1) \<and> over_budget opts c)
               \<and> quality_of opts \<noteq> ''screen''
            then [quality_of opts, ''screen''] else [quality_of opts])"
proof -
  let ?w00 = "logged (Enter_compress (method_of opts) (quality_of opts)) w"
  have q0: "qualities_tried (history ?w00) = qualities_tried (history w) @ [quality_of opts]"
    by simp
  show ?thesis
  proof (cases rule: compress_cases [where env = env and opts = opts and w = w
                                        and inputBuffer = inputBuffer])
    case (mkdir_failed e w1)
    have "touches {} ?w00 w1"
      using touches_mkdir [of "{}" ?w00 env "tempDir_of opts"] mkdir_failed(1) by simp
    from touches_tried [OF this] q0 mkdir_failed(2) first_attempt_mkdir_Inl [OF mkdir_failed(1), of inputBuffer]
    show ?thesis by simp
  next
    case (attempt_failed u w0 ip op e w1)
    have "touches {ip, op} ?w00 w1" using head_touches [OF attempt_failed(1) attempt_failed(3)] .
    then have "touches {ip, op} ?w00 (cleanupFiles env [ip, op] w1)"
      using touches_cleanupFiles by (rule touches_trans)
    from touches_tried [OF this] q0 attempt_failed(4)
      first_attempt_mkdir_Inr [OF attempt_failed(1) attempt_failed(2), of inputBuffer] attempt_failed(3)
    show ?thesis by simp
  next
    case (within u w0 ip op c w1)
    have "touches {ip, op} ?w00 w1" using head_touches [OF within(1) within(3)] .
    from touches_tried [OF this] q0 within(4) within(5)
      first_attempt_mkdir_Inr [OF within(1) within(2), of inputBuffer] within(3)
    show ?thesis by auto
  next
    case (retry u w0 ip op c w1)
    have "touches {ip, op} ?w00 w1" using head_touches [OF retry(1) retry(3)] .
    from touches_tried [OF this] q0
    have q1: "qualities_tried (history w1) = qualities_tried (history w) @ [quality_of opts]" by simp
    let ?w1' = "logged Console_log w1"
    obtain y w2 where rec: "compress env inputBuffer (opts\<lparr>quality := Some ''screen''\<rparr>) ?w1' = (y, w2)"
      by (cases "compress env inputBuffer (opts\<lparr>quality := Some ''screen''\<rparr>) ?w1'")
    have q2: "qualities_tried (history w2) = qualities_tried (history w) @ [quality_of opts, ''screen'']"
      using inner [OF retry(5), of ?w1'] rec q1 by simp
    have fa: "first_attempt env inputBuffer opts w = (Inr c, w1)"
      using first_attempt_mkdir_Inr [OF retry(1) retry(2), of inputBuffer] retry(3) by simp
    have "qualities_tried (history (snd (compress env inputBuffer opts w))) =
          qualities_tried (history w) @ [quality_of opts, ''screen'']"
    proof (cases y)
      case (Inr r)
      with retry(6) rec q2 show ?thesis by simp
    next
      case (Inl e)
      have "touches {} w2 (cleanupFiles env [ip, op] w2)" by (rule touches_cleanupFiles)
      from touches_tried [OF this] retry(6) rec Inl q2 show ?thesis by simp
    qed
    with fa retry(4) retry(5) show ?thesis by auto
  qed
qed

lemma over_budget_quality [simp]: "over_budget (opts\<lparr>quality := q\<rparr>) c = over_budget opts c"
  by (simp add: over_budget_def maxSizeMB_of_def)

lemma method_of_quality [simp]: "method_of (opts\<lparr>quality := q\<rparr>) = method_of opts"
  by (simp add: method_of_def)

lemma compress_tried:
  "qualities_tried (history (snd (compress env inputBuffer opts w))) =
         qualities_tried (history w) @
           (if (\<exists>c w1. first_attempt env inputBuffer opts w = (Inr c, w1) \<and> over_budget opts c)
               \<and> quality_of opts \<noteq> ''screen''
            then [quality_of opts, ''screen''] else [quality_of opts])"
proof (rule compress_tried_step)
  fix w'
  show "qualities_tried (history (snd (compress env inputBuffer (opts\<lparr>quality := Some ''screen''\<rparr>) w')))
            = qualities_tried (history w') @ [''screen'']"
    using compress_tried_step [of "opts\<lparr>quality := Some ''screen''\<rparr>" env inputBuffer w']
    by simp
qed

lemma first_attempt_example:
  "first_attempt pdf_env_ok [9] (pdf_opts0\<lparr>quality := Some ''prepress'', maxSizeMB := Some 0\<rparr>) pdf_world0 =
     (Inr [1, 2, 3],
      \<lparr>files = [],
       history =
         [Enter_compress ''ghostscript'' ''prepress'', Fs_mkdir ''./temp'', Date_now,
          Fs_writeFile ''./temp/input_7.pdf'',
          Exec (Gs ''/prepress'' 150 ''./temp/compressed_7.pdf'' ''./temp/input_7.pdf''),
          Fs_stat ''./temp/compressed_7.pdf'', Fs_readFile ''./temp/compressed_7.pdf'',
          Fs_unlink ''./temp/input_7.pdf'', Fs_unlink ''./temp/compressed_7.pdf'']\<rparr>)"
  by (simp add: first_attempt_def fs_mkdir_def logged_def temp_paths_def tempDir_of_def
      method_of_def quality_of_def string_of_nat.simps compress_once_def fs_writeFile_def
      put_file_def toLowerCase_def compressWithGhostscript_def run_command_def qualitySetting_def
      get_prop_def qualityMap_def fs_stat_def fs_readFile_def cleanupFiles.simps fs_unlink_def
      file_exists_def del_file_def pdf_env_ok_def pdf_opts0_def pdf_world0_def Let_def)

subsection \<open>The retry\<close>

text \<open>
  C4, as stated, fails. A call that starts at \<open>prepress\<close> and whose output is over
  budget retries at \<open>screen\<close>; one step along the sequence would be \<open>printer\<close>.
  The levels \<open>printer\<close>, \<open>default\<close> and \<open>ebook\<close> are skipped.
\<close>

theorem compress_skips_levels:
  "qualities_tried
     (history (snd (compress pdf_env_ok [9]
        (pdf_opts0\<lparr>quality := Some ''prepress'', maxSizeMB := Some 0\<rparr>) pdf_world0))) =
   [''prepress'', ''screen'']
   \<and> next_more_aggressive ''prepress'' = ''printer''"
proof -
  let ?opts = "pdf_opts0\<lparr>quality := Some ''prepress'', maxSizeMB := Some 0\<rparr>"
  have over: "over_budget ?opts [1, 2, 3]"
    by (simp add: over_budget_def maxSizeMB_of_def)
  have "qualities_tried (history (snd (compress pdf_env_ok [9] ?opts pdf_world0))) =
        qualities_tried (history pdf_world0) @ [''prepress'', ''screen'']"
    using compress_tried [of pdf_env_ok "[9]" ?opts pdf_world0] first_attempt_example over
    by (simp add: quality_of_def pdf_opts0_def)
  then show ?thesis
    by (simp add: pdf_world0_def next_more_aggressive_def)
qed

text \<open>
  C4, amended. Whenever the first attempt of a call produces an output over the budget
  and the quality of the call is not \<open>'screen'\<close>, \<open>compress\<close> retries once, and
  the retry is at \<open>'screen'\<close>, the most aggressive level, whatever the level it
  started from: the qualities tried during the call are the starting one, then
  \<open>'screen'\<close>, and no other.
\<close>

theorem compress_retries_with_screen:
  assumes "first_attempt env inputBuffer opts w = (Inr c, w1)"
    and "over_budget opts c"
    and "quality_of opts \<noteq> ''screen''"
  shows "qualities_tried (history (snd (compress env inputBuffer opts w))) =
           qualities_tried (history w) @ [quality_of opts, ''screen'']"
  using assms compress_tried [of env inputBuffer opts w] by auto

text \<open>
  C4 amended, at an input: start at \<open>prepress\<close>, budget 0, an output of three bytes.
\<close>

theorem compress_retries_with_screen_witness:
  "qualities_tried
     (history (snd (compress pdf_env_ok [9]
        (pdf_opts0\<lparr>quality := Some ''prepress'', maxSizeMB := Some 0\<rparr>) pdf_world0))) =
   [''prepress'', ''screen'']"
proof -
  let ?opts = "pdf_opts0\<lparr>quality := Some ''prepress'', maxSizeMB := Some 0\<rparr>"
  have over: "over_budget ?opts [1, 2, 3]"
    by (simp add: over_budget_def maxSizeMB_of_def)
  have q: "quality_of ?opts \<noteq> ''screen''"
    by (simp add: quality_of_def pdf_opts0_def)
  show ?thesis
    using compress_retries_with_screen [OF first_attempt_example over q]
    by (simp add: pdf_world0_def quality_of_def pdf_opts0_def)
qed

subsection \<open>Over budget at every level\<close>

lemma qpdf_flags_quality [simp]: "qpdf_flags (opts\<lparr>quality := q\<rparr>) = qpdf_flags opts"
  by (simp add: qpdf_flags_def)






subsection \<open>Temporary files\<close>

text \<open>
  C6, as stated, fails. \<open>cleanupFiles\<close> catches what \<open>unlink\<close> throws; when the
  file system refuses the \<open>unlink\<close> (here with \<open>EPERM\<close>) it writes a warning and
  goes on. The call returns its result, which the failed cleanup does not mask, and
  both temporary files of the call are still there.
\<close>

theorem compress_unlink_refused_leaves_files:
  "fst (compress pdf_env_eperm [9] pdf_opts0 pdf_world0) =
     Inr \<lparr>p_success = True, originalSize = 1, compressedSize = 3, p_buffer = [1, 2, 3],
          methodUsed = ''ghostscript''\<rparr>
   \<and> files (snd (compress pdf_env_eperm [9] pdf_opts0 pdf_world0)) =
       [(''./temp/compressed_7.pdf'', [1, 2, 3]), (''./temp/input_7.pdf'', [9])]
   \<and> call_paths pdf_env_eperm pdf_opts0 pdf_world0 =
       (''./temp/input_7.pdf'', ''./temp/compressed_7.pdf'')"
  by (simp add: compress.simps call_paths_def fs_mkdir_def logged_def temp_paths_def tempDir_of_def
      method_of_def quality_of_def maxSizeMB_of_def over_budget_def string_of_nat.simps
      compress_once_def fs_writeFile_def
      put_file_def toLowerCase_def compressWithGhostscript_def run_command_def qualitySetting_def
      get_prop_def qualityMap_def fs_stat_def fs_readFile_def cleanupFiles.simps fs_unlink_def
      file_exists_def del_file_def pdf_env_eperm_def pdf_opts0_def pdf_world0_def Let_def)

text \<open>
  C6, amended. In an environment where no \<open>unlink\<close> is refused, after every call of
  \<open>compress\<close>, returned or thrown: no path written during the call, by the process
  or by a command it ran, in the call itself or in its retry, exists any more; no file
  exists that did not exist before the call; and, when the directory could be made, the
  two paths the call generated for its input and output do not exist.
\<close>

theorem compress_leaves_no_temp_file:
  assumes nf: "\<forall>h p. fs_fault env h (Fs_unlink p) = None"
    and run: "compress env inputBuffer opts w = (res, w')"
  shows "(\<forall>p \<in> set (written_paths (drop (length (history w)) (history w'))). \<not> file_exists w' p)
         \<and> (\<forall>p. file_exists w' p \<longrightarrow> file_exists w p)
         \<and> (fst (fs_mkdir env (tempDir_of opts)
                   (logged (Enter_compress (method_of opts) (quality_of opts)) w)) = Inr () \<longrightarrow>
              \<not> file_exists w' (fst (call_paths env opts w))
            \<and> \<not> file_exists w' (snd (call_paths env opts w)))"
proof -
  from compress_clean [OF nf, of w inputBuffer opts] run
  have cl: "clean w w'" and
    pa: "\<forall>u w0. fs_mkdir env (tempDir_of opts)
                      (logged (Enter_compress (method_of opts) (quality_of opts)) w) = (Inr u, w0) \<longrightarrow>
              \<not> file_exists w' (fst (call_paths env opts w))
            \<and> \<not> file_exists w' (snd (call_paths env opts w))"
    by simp_all
  from cl obtain evs where h: "history w' = history w @ evs"
    and ab: "\<forall>p \<in> set (written_paths evs). \<not> file_exists w' p"
    and sub: "\<forall>p. file_exists w' p \<longrightarrow> file_exists w p"
    unfolding clean_def by blast
  from h have "drop (length (history w)) (history w') = evs" by simp
  with ab have one: "\<forall>p \<in> set (written_paths (drop (length (history w)) (history w'))). \<not> file_exists w' p"
    by simp
  have three: "fst (fs_mkdir env (tempDir_of opts)
                   (logged (Enter_compress (method_of opts) (quality_of opts)) w)) = Inr () \<longrightarrow>
              \<not> file_exists w' (fst (call_paths env opts w))
            \<and> \<not> file_exists w' (snd (call_paths env opts w))"
    using pa
    by (cases "fs_mkdir env (tempDir_of opts)
                   (logged (Enter_compress (method_of opts) (quality_of opts)) w)") auto
  from one sub three show ?thesis by blast
qed

text \<open>
  C6 amended, at an input: a method the \<open>switch\<close> does not know, so that the call
  throws after writing its input file; the \<open>catch\<close> removes it.
\<close>

theorem compress_leaves_no_temp_file_witness:
  "\<exists>res w'. compress pdf_env_ok [9] (pdf_opts0\<lparr>method_opt := Some ''zip''\<rparr>) pdf_world0 = (res, w')
      \<and> (\<forall>p \<in> set (written_paths (drop (length (history pdf_world0)) (history w'))).
            \<not> file_exists w' p)
      \<and> (\<forall>p. file_exists w' p \<longrightarrow> file_exists pdf_world0 p)
      \<and> \<not> file_exists w' (fst (call_paths pdf_env_ok (pdf_opts0\<lparr>method_opt := Some ''zip''\<rparr>) pdf_world0))
      \<and> \<not> file_exists w' (snd (call_paths pdf_env_ok (pdf_opts0\<lparr>method_opt := Some ''zip''\<rparr>) pdf_world0))"
proof -
  let ?opts = "pdf_opts0\<lparr>method_opt := Some ''zip''\<rparr>"
  have nf: "\<forall>h p. fs_fault pdf_env_ok h (Fs_unlink p) = None"
    by (simp add: pdf_env_ok_def)
  obtain res w' where run: "compress pdf_env_ok [9] ?opts pdf_world0 = (res, w')"
    by (cases "compress pdf_env_ok [9] ?opts pdf_world0")
  have mk: "fst (fs_mkdir pdf_env_ok (tempDir_of ?opts)
                   (logged (Enter_compress (method_of ?opts) (quality_of ?opts)) pdf_world0)) = Inr ()"
    by (simp add: fs_mkdir_def pdf_env_ok_def)
  from compress_leaves_no_temp_file [OF nf run] mk run show ?thesis
    by blast
qed

end
